theory Spec2Isabelle
  imports Complex_Main
begin

section \<open>Python and NumPy primitives used by the simulator\<close>

text \<open>
  The simulator (\<^verbatim>\<open>src/population.py\<close>, \<^verbatim>\<open>src/catastrophe.py\<close>,
  \<^verbatim>\<open>src/vital_rates.py\<close>, \<^verbatim>\<open>src/simulation.py\<close>) works on NumPy integer arrays of
  counts and floating-point arrays of rates. Counts are modelled as unbounded \<open>int\<close> (the
  64-bit py_range is never approached by the arithmetic studied here) and rates as exact
  rationals: every product, quotient and rounding below is the exact one, so the model
  idealises IEEE rounding error away. An out-of-py_range subscript raises \<^verbatim>\<open>IndexError\<close>;
  NumPy's samplers raise \<^verbatim>\<open>ValueError\<close> on arguments outside their domain.
\<close>

datatype error = IndexError | ValueError

definition bindE :: "error + 'a \<Rightarrow> ('a \<Rightarrow> error + 'b) \<Rightarrow> error + 'b" where
  "bindE m f = (case m of Inl e \<Rightarrow> Inl e | Inr x \<Rightarrow> f x)"

text \<open>Subscripting \<^verbatim>\<open>xs[i]\<close>: a negative subscript counts from the end.\<close>

definition norm_index :: "'a list \<Rightarrow> int \<Rightarrow> nat option" where
  "norm_index xs i =
     (if 0 \<le> i then (if i < int (length xs) then Some (nat i) else None)
      else (if 0 \<le> i + int (length xs) then Some (nat (i + int (length xs))) else None))"

definition getitem :: "'a list \<Rightarrow> int \<Rightarrow> error + 'a" where
  "getitem xs i = (case norm_index xs i of None \<Rightarrow> Inl IndexError | Some k \<Rightarrow> Inr (xs ! k))"

definition setitem :: "'a list \<Rightarrow> int \<Rightarrow> 'a \<Rightarrow> error + 'a list" where
  "setitem xs i v = (case norm_index xs i of None \<Rightarrow> Inl IndexError | Some k \<Rightarrow> Inr (xs[k := v]))"

text \<open>\<^verbatim>\<open>xs[i] += v\<close>\<close>

definition additem :: "int list \<Rightarrow> int \<Rightarrow> int \<Rightarrow> error + int list" where
  "additem xs i v = bindE (getitem xs i) (\<lambda>old. setitem xs i (old + v))"

text \<open>\<^verbatim>\<open>range(a, b)\<close>\<close>

definition py_range :: "int \<Rightarrow> int \<Rightarrow> int list" where
  "py_range a b = [a..b - 1]"

text \<open>A \<^verbatim>\<open>for\<close> loop whose body may raise: the first error ends the loop.\<close>

fun for_each :: "'i list \<Rightarrow> ('i \<Rightarrow> 's \<Rightarrow> error + 's) \<Rightarrow> 's \<Rightarrow> error + 's" where
  "for_each [] body s = Inr s"
| "for_each (i # rest) body s =
     (case body i s of Inl e \<Rightarrow> Inl e | Inr s' \<Rightarrow> for_each rest body s')"

text \<open>\<^verbatim>\<open>round(x)\<close> rounds to the nearest integer, ties to the even one.\<close>

definition py_round :: "rat \<Rightarrow> int" where
  "py_round x =
     (let f = \<lfloor>x\<rfloor>; d = x - of_int f
      in if d < 1 / 2 then f
         else if 1 / 2 < d then f + 1
         else if even f then f else f + 1)"

text \<open>\<^verbatim>\<open>.astype(int)\<close> on a float array drops the fractional part (towards zero).\<close>

definition astype_int :: "rat \<Rightarrow> int" where
  "astype_int x = (if 0 \<le> x then \<lfloor>x\<rfloor> else \<lceil>x\<rceil>)"

text \<open>\<^verbatim>\<open>np.clip(x, lo, hi)\<close>, with \<^verbatim>\<open>hi = None\<close> for no upper bound.\<close>

definition clip :: "rat \<Rightarrow> rat option \<Rightarrow> rat \<Rightarrow> rat" where
  "clip lo hi x = (case hi of None \<Rightarrow> max x lo | Some h \<Rightarrow> min (max x lo) h)"

text \<open>
  The global random source \<^verbatim>\<open>np.random\<close> is a library outside the repository. It is a
  parameter of the model: a state type \<open>'g\<close> with one function per primitive the simulator
  calls. Each draw returns its value and the next state; \<^verbatim>\<open>binomial\<close> and
  \<^verbatim>\<open>poisson\<close> may raise.
\<close>

record 'g sampler =
  np_seed :: "int \<Rightarrow> 'g"
  np_random :: "'g \<Rightarrow> rat \<times> 'g"
  np_randint :: "int \<Rightarrow> int \<Rightarrow> 'g \<Rightarrow> int \<times> 'g"
  np_binomial :: "int \<Rightarrow> rat \<Rightarrow> 'g \<Rightarrow> error + (int \<times> 'g)"
  np_poisson :: "rat \<Rightarrow> 'g \<Rightarrow> error + (int \<times> 'g)"
  np_normal :: "rat \<Rightarrow> rat \<Rightarrow> 'g \<Rightarrow> rat \<times> 'g"

text \<open>\<^verbatim>\<open>np.random.normal(mu, sd, size=n)\<close> fills an array with \<open>n\<close> successive draws.\<close>

fun normal_vec :: "'g sampler \<Rightarrow> rat \<Rightarrow> rat \<Rightarrow> nat \<Rightarrow> 'g \<Rightarrow> rat list \<times> 'g" where
  "normal_vec smp mu sd 0 g = ([], g)"
| "normal_vec smp mu sd (Suc n) g =
     (let (x, g1) = np_normal smp mu sd g;
          (xs, g2) = normal_vec smp mu sd n g1
      in (x # xs, g2))"

section \<open>Vital rates\<close>

record vital_rates =
  female_survival :: "rat list"
  male_survival :: "rat list"
  female_fertility :: "rat list"
  male_fertility :: "rat list"
  env_sd_survival :: rat
  env_sd_fertility :: rat

text \<open>The dataclass constructor: it stores its arguments and checks nothing.\<close>

definition VitalRates ::
  "rat list \<Rightarrow> rat list \<Rightarrow> rat list \<Rightarrow> rat list \<Rightarrow> rat \<Rightarrow> rat \<Rightarrow> error + vital_rates" where
  "VitalRates fs ms ff mf sd_s sd_f =
     Inr \<lparr>female_survival = fs, male_survival = ms, female_fertility = ff,
          male_fertility = mf, env_sd_survival = sd_s, env_sd_fertility = sd_f\<rparr>"

definition apply_environmental_noise ::
  "'g sampler \<Rightarrow> vital_rates \<Rightarrow> 'g \<Rightarrow> (rat list \<times> rat list \<times> rat list \<times> rat list) \<times> 'g" where
  "apply_environmental_noise smp vr g =
     (let (f_survival, m_survival, g2) =
            (if 0 < env_sd_survival vr then
               (let (f_survival_noise, ga) =
                      normal_vec smp 1 (env_sd_survival vr) (length (female_survival vr)) g;
                    (m_survival_noise, gb) =
                      normal_vec smp 1 (env_sd_survival vr) (length (male_survival vr)) ga
                in (map (clip 0 (Some 1)) (map2 (*) (female_survival vr) f_survival_noise),
                    map (clip 0 (Some 1)) (map2 (*) (male_survival vr) m_survival_noise), gb))
             else (female_survival vr, male_survival vr, g));
          (f_fertility, m_fertility, g4) =
            (if 0 < env_sd_fertility vr then
               (let (f_fertility_noise, gc) =
                      normal_vec smp 1 (env_sd_fertility vr) (length (female_fertility vr)) g2;
                    (m_fertility_noise, gd) =
                      normal_vec smp 1 (env_sd_fertility vr) (length (male_fertility vr)) gc
                in (map (clip 0 None) (map2 (*) (female_fertility vr) f_fertility_noise),
                    map (clip 0 None) (map2 (*) (male_fertility vr) m_fertility_noise), gd))
             else (female_fertility vr, male_fertility vr, g2))
      in ((f_survival, m_survival, f_fertility, m_fertility), g4))"

section \<open>Catastrophe\<close>

record catastrophe =
  probability :: rat
  mortality_rate :: rat

definition Catastrophe :: "rat \<Rightarrow> rat \<Rightarrow> error + catastrophe" where
  "Catastrophe p m = Inr \<lparr>probability = p, mortality_rate = m\<rparr>"

definition occurs :: "'g sampler \<Rightarrow> catastrophe \<Rightarrow> 'g \<Rightarrow> bool \<times> 'g" where
  "occurs smp c g = (let (u, g1) = np_random smp g in (u < probability c, g1))"

text \<open>
  The number kept out of \<open>n\<close> individuals at rate \<open>p\<close>:
  \<^verbatim>\<open>np.random.binomial(n, p)\<close> with demographic noise, \<^verbatim>\<open>int(round(n * p))\<close> without.
  The survival step, the catastrophe and the sex assignment of births all use this pair.
\<close>

definition thinned :: "'g sampler \<Rightarrow> bool \<Rightarrow> int \<Rightarrow> rat \<Rightarrow> 'g \<Rightarrow> error + (int \<times> 'g)" where
  "thinned smp demo n p g =
     (if demo then np_binomial smp n p g else Inr (py_round (of_int n * p), g))"

definition catastrophe_body ::
  "'g sampler \<Rightarrow> bool \<Rightarrow> catastrophe \<Rightarrow> int \<Rightarrow> (int list \<times> int list) \<times> 'g
     \<Rightarrow> error + ((int list \<times> int list) \<times> 'g)" where
  "catastrophe_body smp demo c i = (\<lambda>((new_f, new_m), g).
     bindE (getitem new_f i) (\<lambda>cf.
     bindE (thinned smp demo cf (1 - mortality_rate c) g) (\<lambda>(kept_f, g1).
     bindE (setitem new_f i kept_f) (\<lambda>new_f'.
     bindE (getitem new_m i) (\<lambda>cm.
     bindE (thinned smp demo cm (1 - mortality_rate c) g1) (\<lambda>(kept_m, g2).
     bindE (setitem new_m i kept_m) (\<lambda>new_m'.
     Inr ((new_f', new_m'), g2))))))))"

definition apply_catastrophe ::
  "'g sampler \<Rightarrow> bool \<Rightarrow> catastrophe \<Rightarrow> (int list \<times> int list) \<times> 'g
     \<Rightarrow> error + ((int list \<times> int list) \<times> 'g)" where
  "apply_catastrophe smp demo c = (\<lambda>((new_f, new_m), g).
     (let (fires, g1) = occurs smp c g
      in if fires
         then for_each (py_range 0 (int (length new_f))) (catastrophe_body smp demo c)
                ((new_f, new_m), g1)
         else Inr ((new_f, new_m), g1)))"

section \<open>Population and its one-generation transition\<close>

record population =
  female :: "int list"
  male :: "int list"
  carrying_capacity :: "int option"
  reproduction_age :: int
  male_birth_prop :: rat

definition total_population :: "population \<Rightarrow> int" where
  "total_population pop = sum_list (female pop) + sum_list (male pop)"

definition is_extinct :: "population \<Rightarrow> int \<Rightarrow> bool" where
  "is_extinct pop q_threshold = (total_population pop \<le> q_threshold)"

text \<open>
  One pass of the survival code for source class \<open>src\<close> and destination slot \<open>dst\<close>:
  the loop over \<^verbatim>\<open>range(age_classes - 1)\<close> runs it with \<open>dst = src + 1\<close>, the code for the
  last class with \<open>src = dst = -1\<close>.
\<close>

definition survival_body ::
  "'g sampler \<Rightarrow> bool \<Rightarrow> population \<Rightarrow> rat list \<Rightarrow> rat list \<Rightarrow> int \<Rightarrow> int
     \<Rightarrow> (int list \<times> int list) \<times> 'g \<Rightarrow> error + ((int list \<times> int list) \<times> 'g)" where
  "survival_body smp demo pop f_survival m_survival src dst = (\<lambda>((new_f, new_m), g).
     bindE (getitem (female pop) src) (\<lambda>cf.
     bindE (getitem f_survival src) (\<lambda>sf.
     bindE (thinned smp demo cf sf g) (\<lambda>(surv_f, g1).
     bindE (getitem (male pop) src) (\<lambda>cm.
     bindE (getitem m_survival src) (\<lambda>sm.
     bindE (thinned smp demo cm sm g1) (\<lambda>(surv_m, g2).
     bindE (additem new_f dst surv_f) (\<lambda>new_f'.
     bindE (additem new_m dst surv_m) (\<lambda>new_m'.
     Inr ((new_f', new_m'), g2))))))))))"

definition survival ::
  "'g sampler \<Rightarrow> bool \<Rightarrow> population \<Rightarrow> rat list \<Rightarrow> rat list \<Rightarrow> 'g
     \<Rightarrow> error + ((int list \<times> int list) \<times> 'g)" where
  "survival smp demo pop f_survival m_survival g =
     bindE (for_each (py_range 0 (int (length (female pop)) - 1))
              (\<lambda>i. survival_body smp demo pop f_survival m_survival i (i + 1))
              ((replicate (length (female pop)) 0, replicate (length (male pop)) 0), g))
           (survival_body smp demo pop f_survival m_survival (- 1) (- 1))"

definition births_body ::
  "'g sampler \<Rightarrow> bool \<Rightarrow> int list \<Rightarrow> rat list \<Rightarrow> int \<Rightarrow> int \<times> 'g \<Rightarrow> error + (int \<times> 'g)" where
  "births_body smp demo new_f f_fertility i = (\<lambda>(births, g).
     bindE (getitem new_f i) (\<lambda>n_females.
     bindE (getitem f_fertility i) (\<lambda>rate.
     bindE (if demo then np_poisson smp (of_int n_females * rate) g
            else Inr (py_round (of_int n_females * rate), g)) (\<lambda>(births_i, g1).
     Inr (births + births_i, g1)))))"

definition reproduction ::
  "'g sampler \<Rightarrow> bool \<Rightarrow> population \<Rightarrow> rat list \<Rightarrow> int list \<Rightarrow> 'g \<Rightarrow> error + (int \<times> 'g)" where
  "reproduction smp demo pop f_fertility new_f g =
     for_each (py_range (reproduction_age pop) (int (length (female pop))))
       (births_body smp demo new_f f_fertility) (0, g)"

definition assign_sexes ::
  "'g sampler \<Rightarrow> bool \<Rightarrow> population \<Rightarrow> int \<Rightarrow> 'g \<Rightarrow> error + ((int \<times> int) \<times> 'g)" where
  "assign_sexes smp demo pop births g =
     (if 0 < births
      then bindE (thinned smp demo births (male_birth_prop pop) g)
             (\<lambda>(n_male_births, g1). Inr ((births - n_male_births, n_male_births), g1))
      else Inr ((0, 0), g))"

text \<open>The list comprehension \<^verbatim>\<open>[np.random.binomial(int(xs[i]), ratio) for i in ...]\<close>.\<close>

fun scaled_draws ::
  "'g sampler \<Rightarrow> rat \<Rightarrow> int list \<Rightarrow> int list \<Rightarrow> 'g \<Rightarrow> error + (int list \<times> 'g)" where
  "scaled_draws smp ratio xs [] g = Inr ([], g)"
| "scaled_draws smp ratio xs (i # rest) g =
     bindE (getitem xs i) (\<lambda>c.
     bindE (np_binomial smp c ratio g) (\<lambda>(v, g1).
     bindE (scaled_draws smp ratio xs rest g1) (\<lambda>(vs, g2).
     Inr (v # vs, g2))))"

definition enforce_capacity ::
  "'g sampler \<Rightarrow> bool \<Rightarrow> population \<Rightarrow> (int list \<times> int list) \<times> 'g
     \<Rightarrow> error + ((int list \<times> int list) \<times> 'g)" where
  "enforce_capacity smp demo pop = (\<lambda>((new_f, new_m), g).
     (case carrying_capacity pop of
        None \<Rightarrow> Inr ((new_f, new_m), g)
      | Some K \<Rightarrow>
          (let total = sum_list new_f + sum_list new_m
           in if K < total \<and> 0 < total then
                (let ratio = of_int K / of_int total
                 in if demo then
                      bindE (scaled_draws smp ratio new_f
                               (py_range 0 (int (length (female pop)))) g) (\<lambda>(scaled_f, g1).
                      bindE (scaled_draws smp ratio new_m
                               (py_range 0 (int (length (female pop)))) g1) (\<lambda>(scaled_m, g2).
                      Inr ((scaled_f, scaled_m), g2)))
                    else Inr ((map (\<lambda>c. astype_int (of_int c * ratio)) new_f,
                               map (\<lambda>c. astype_int (of_int c * ratio)) new_m), g))
              else Inr ((new_f, new_m), g))))"

text \<open>The rates a transition works with: a noisy draw, or the baseline arrays themselves.\<close>

definition effective_rates ::
  "'g sampler \<Rightarrow> vital_rates \<Rightarrow> bool \<Rightarrow> 'g
     \<Rightarrow> (rat list \<times> rat list \<times> rat list \<times> rat list) \<times> 'g" where
  "effective_rates smp vital_rates env_noise g =
     (if env_noise then apply_environmental_noise smp vital_rates g
      else ((female_survival vital_rates, male_survival vital_rates,
             female_fertility vital_rates, male_fertility vital_rates), g))"

definition advance_generation ::
  "'g sampler \<Rightarrow> vital_rates \<Rightarrow> catastrophe option \<Rightarrow> bool \<Rightarrow> bool \<Rightarrow> population \<Rightarrow> 'g
     \<Rightarrow> error + (population \<times> 'g)" where
  "advance_generation smp vital_rates cat demo_noise env_noise pop g =
     (let ((f_survival, m_survival, f_fertility, m_fertility), g0) =
            effective_rates smp vital_rates env_noise g
      in bindE (survival smp demo_noise pop f_survival m_survival g0) (\<lambda>((new_f, new_m), g1).
         bindE (reproduction smp demo_noise pop f_fertility new_f g1) (\<lambda>(births, g2).
         bindE (assign_sexes smp demo_noise pop births g2) (\<lambda>((n_female_births, n_male_births), g3).
         bindE (setitem new_f 0 n_female_births) (\<lambda>new_f.
         bindE (setitem new_m 0 n_male_births) (\<lambda>new_m.
         bindE (case cat of None \<Rightarrow> Inr ((new_f, new_m), g3)
                | Some c \<Rightarrow> apply_catastrophe smp demo_noise c ((new_f, new_m), g3)) (\<lambda>st.
         bindE (enforce_capacity smp demo_noise pop st) (\<lambda>((new_f, new_m), g5).
         Inr (pop\<lparr>female := new_f, male := new_m\<rparr>, g5)))))))))"

section \<open>Simulation: replicates, trajectories and extinction times\<close>

text \<open>One row of a trajectory data frame (columns generation, female, male, total).\<close>

record row =
  generation :: int
  females :: int
  males :: int
  total :: int

text \<open>An extinction time is a generation index or \<^verbatim>\<open>np.inf\<close>.\<close>

datatype etime = Gen int | Inf

record simulation_result =
  trajectories :: "row list list"
  extinction_times :: "etime list"
  result_q_threshold :: int

record simulation =
  sim_vital_rates :: vital_rates
  initial_females :: "int list"
  initial_males :: "int list"
  sim_catastrophe :: "catastrophe option"
  sim_carrying_capacity :: "int option"
  n_generations :: int
  q_threshold :: int
  n_replicates :: int
  demo_noise :: bool
  env_noise :: bool
  seed :: "int option"

definition record_row :: "int \<Rightarrow> population \<Rightarrow> row" where
  "record_row gen pop =
     \<lparr>generation = gen, females = sum_list (female pop), males = sum_list (male pop),
      total = total_population pop\<rparr>"

definition zero_row :: "int \<Rightarrow> row" where
  "zero_row gen2 = \<lparr>generation = gen2, females = 0, males = 0, total = 0\<rparr>"

text \<open>
  The loop \<^verbatim>\<open>for gen in range(1, n_generations + 1)\<close> with its \<^verbatim>\<open>break\<close>: it returns
  the records and the value of \<^verbatim>\<open>extinct_at\<close>.
\<close>

fun generation_loop ::
  "'g sampler \<Rightarrow> simulation \<Rightarrow> int list \<Rightarrow> population \<Rightarrow> row list \<Rightarrow> 'g
     \<Rightarrow> error + (row list \<times> etime \<times> 'g)" where
  "generation_loop smp sim [] pop records g = Inr (records, Inf, g)"
| "generation_loop smp sim (gen # rest) pop records g =
     (case advance_generation smp (sim_vital_rates sim) (sim_catastrophe sim)
             (demo_noise sim) (env_noise sim) pop g of
        Inl e \<Rightarrow> Inl e
      | Inr (pop', g') \<Rightarrow>
          (if is_extinct pop' (q_threshold sim)
           then Inr (records @ [record_row gen pop'], Gen gen, g')
           else generation_loop smp sim rest pop' (records @ [record_row gen pop']) g'))"

definition padding :: "etime \<Rightarrow> int \<Rightarrow> row list" where
  "padding extinct_at n =
     (case extinct_at of
        Inf \<Rightarrow> []
      | Gen e \<Rightarrow> if e < n then map zero_row (py_range (e + 1) (n + 1)) else [])"

definition replicate_seed :: "int \<Rightarrow> int \<Rightarrow> int" where
  "replicate_seed base_seed rep = (base_seed + rep) mod (2 ^ 32 - 1)"

definition initial_population :: "simulation \<Rightarrow> population" where
  "initial_population sim =
     \<lparr>female = initial_females sim, male = initial_males sim,
      carrying_capacity = sim_carrying_capacity sim, reproduction_age = 1,
      male_birth_prop = 1 / 2\<rparr>"

text \<open>The body of the replicate loop: reseed, build the population, simulate, pad.\<close>

definition run_replicate ::
  "'g sampler \<Rightarrow> simulation \<Rightarrow> int \<Rightarrow> int \<Rightarrow> error + (row list \<times> etime \<times> 'g)" where
  "run_replicate smp sim base_seed rep =
     bindE (generation_loop smp sim (py_range 1 (n_generations sim + 1))
              (initial_population sim) [record_row 0 (initial_population sim)]
              (np_seed smp (replicate_seed base_seed rep)))
       (\<lambda>(records, extinct_at, g).
          Inr (records @ padding extinct_at (n_generations sim), extinct_at, g))"

definition replicate_body ::
  "'g sampler \<Rightarrow> simulation \<Rightarrow> int \<Rightarrow> int \<Rightarrow> (row list list \<times> etime list) \<times> 'g
     \<Rightarrow> error + ((row list list \<times> etime list) \<times> 'g)" where
  "replicate_body smp sim base_seed rep = (\<lambda>((trajs, times), g).
     bindE (run_replicate smp sim base_seed rep) (\<lambda>(df, extinct_at, g').
       Inr ((trajs @ [df], times @ [extinct_at]), g')))"

text \<open>\<open>run\<close> takes the state of the global random source at entry and returns it at exit.\<close>

definition run :: "'g sampler \<Rightarrow> simulation \<Rightarrow> 'g \<Rightarrow> error + (simulation_result \<times> 'g)" where
  "run smp sim g0 =
     (let (base_seed, g1) =
            (case seed sim of Some s \<Rightarrow> (s, g0) | None \<Rightarrow> np_randint smp 0 (2 ^ 32 - 1) g0)
      in bindE (for_each (py_range 0 (n_replicates sim)) (replicate_body smp sim base_seed)
                  (([], []), g1))
           (\<lambda>((trajs, times), g).
              Inr (\<lparr>trajectories = trajs, extinction_times = times,
                    result_q_threshold = q_threshold sim\<rparr>, g)))"

section \<open>Summary statistics\<close>

text \<open>
  \<^verbatim>\<open>float('nan')\<close> is \<open>None\<close>. \<^verbatim>\<open>np.mean\<close> is the arithmetic mean; \<^verbatim>\<open>np.median\<close> is the
  middle element of the sorted values, or the mean of the two middle ones.
\<close>

definition np_mean :: "int list \<Rightarrow> rat" where
  "np_mean xs = of_int (sum_list xs) / of_nat (length xs)"

definition np_median :: "int list \<Rightarrow> rat" where
  "np_median xs =
     (let s = sort xs; n = length s
      in if odd n then of_int (s ! (n div 2))
         else (of_int (s ! (n div 2 - 1)) + of_int (s ! (n div 2))) / 2)"

record summary_row =
  replicates :: nat
  extinct :: nat
  extinction_probability :: "rat option"
  mean_time_to_extinction :: "rat option"
  median_time_to_extinction :: "rat option"

definition finite_times :: "etime list \<Rightarrow> int list" where
  "finite_times ts = concat (map (\<lambda>t. case t of Gen g \<Rightarrow> [g] | Inf \<Rightarrow> []) ts)"

definition summary :: "simulation_result \<Rightarrow> summary_row" where
  "summary res =
     (let n_replicates = length (extinction_times res);
          n_extinct = length (filter (\<lambda>t. t \<noteq> Inf) (extinction_times res));
          times = finite_times (extinction_times res)
      in \<lparr>replicates = n_replicates,
          extinct = n_extinct,
          extinction_probability =
            (if n_replicates \<noteq> 0 then Some (of_nat n_extinct / of_nat n_replicates) else None),
          mean_time_to_extinction = (if times \<noteq> [] then Some (np_mean times) else None),
          median_time_to_extinction = (if times \<noteq> [] then Some (np_median times) else None)\<rparr>)"

section \<open>Observing results\<close>

text \<open>What a caller observes of a stateful result: the value or the error.\<close>

definition outcome :: "error + ('a \<times> 'g) \<Rightarrow> error + 'a" where
  "outcome r = (case r of Inl e \<Rightarrow> Inl e | Inr (a, g) \<Rightarrow> Inr a)"

text \<open>
  Two results agree from random states \<open>g\<close> and \<open>h\<close> when they raise the same error, or
  return the same value and leave \<open>g\<close> and \<open>h\<close> as they are.
\<close>

definition agree :: "'g \<Rightarrow> 'h \<Rightarrow> error + ('a \<times> 'g) \<Rightarrow> error + ('a \<times> 'h) \<Rightarrow> bool" where
  "agree g h r r' = (case r of Inl e \<Rightarrow> r' = Inl e | Inr (a, g1) \<Rightarrow> g1 = g \<and> r' = Inr (a, h))"

text \<open>
  The base seed of a run: the explicit seed, or one draw of
  \<^verbatim>\<open>np.random.randint(0, 2**32 - 1)\<close> from the state at entry.
\<close>

definition base_seed_of :: "'g sampler \<Rightarrow> simulation \<Rightarrow> 'g \<Rightarrow> int" where
  "base_seed_of smp sim g0 =
     (case seed sim of Some s \<Rightarrow> s | None \<Rightarrow> fst (np_randint smp 0 (2 ^ 32 - 1) g0))"

text \<open>
  Well-formed input, as the command line checks it before building a simulation: at least
  one age class, all count and rate arrays of one length, a non-negative reproduction age.
\<close>

definition well_formed :: "vital_rates \<Rightarrow> population \<Rightarrow> bool" where
  "well_formed vr pop \<longleftrightarrow>
     female pop \<noteq> [] \<and> length (male pop) = length (female pop) \<and>
     length (female_survival vr) = length (female pop) \<and>
     length (male_survival vr) = length (female pop) \<and>
     length (female_fertility vr) = length (female pop) \<and>
     0 \<le> reproduction_age pop"

section \<open>Specification-side notions\<close>

text \<open>
  What the specification means by a median, stated without reference to sorting: at least
  half of the values lie at or below it and at least half at or above it.
\<close>

definition is_median :: "rat \<Rightarrow> int list \<Rightarrow> bool" where
  "is_median m xs \<longleftrightarrow>
     length xs \<le> 2 * length (filter (\<lambda>x. of_int x \<le> m) xs) \<and>
     length xs \<le> 2 * length (filter (\<lambda>x. m \<le> of_int x) xs)"

text \<open>
  The survivor array in closed form, for the transition without demographic noise:
  \<open>survivors counts rates i\<close> individuals of class \<open>i\<close> survive; class \<open>i \<ge> 1\<close> of the aged
  array receives the survivors of class \<open>i - 1\<close>, and the last class keeps its own
  survivors as well. \<open>aged_upto k\<close> is the array after \<open>k\<close> passes of the survival loop.
\<close>

definition survivors :: "int list \<Rightarrow> rat list \<Rightarrow> nat \<Rightarrow> int" where
  "survivors counts rates i = py_round (of_int (counts ! i) * rates ! i)"

definition aged_upto :: "nat \<Rightarrow> int list \<Rightarrow> rat list \<Rightarrow> int list" where
  "aged_upto k counts rates =
     map (\<lambda>i. if 0 < i \<and> i \<le> k then survivors counts rates (i - 1) else 0) [0..<length counts]"

definition aged :: "int list \<Rightarrow> rat list \<Rightarrow> int list" where
  "aged counts rates =
     map (\<lambda>i. (if i = 0 then 0 else survivors counts rates (i - 1))
              + (if Suc i = length counts then survivors counts rates i else 0))
       [0..<length counts]"

text \<open>Total births: the sum over the classes from the reproduction age on.\<close>

definition births_from :: "int list \<Rightarrow> rat list \<Rightarrow> nat \<Rightarrow> int" where
  "births_from new_f fertility r =
     (\<Sum>i\<leftarrow>[r..<length new_f]. py_round (of_int (new_f ! i) * fertility ! i))"

text \<open>The births of a transition without demographic noise, and their split between the sexes.\<close>

definition det_births :: "vital_rates \<Rightarrow> population \<Rightarrow> int" where
  "det_births vr pop =
     births_from (aged (female pop) (female_survival vr)) (female_fertility vr)
       (nat (reproduction_age pop))"

definition det_male_births :: "vital_rates \<Rightarrow> population \<Rightarrow> int" where
  "det_male_births vr pop =
     (if 0 < det_births vr pop
      then py_round (of_int (det_births vr pop) * male_birth_prop pop) else 0)"

definition det_female_births :: "vital_rates \<Rightarrow> population \<Rightarrow> int" where
  "det_female_births vr pop =
     (if 0 < det_births vr pop then det_births vr pop - det_male_births vr pop else 0)"

section \<open>A concrete random source for worked examples\<close>

text \<open>
  A random source that reads its outcomes from a tape. Each primitive consumes one entry
  and maps it into the support of its distribution, so every outcome a tape produces is
  one the real sampler produces with positive probability; an exhausted tape yields
  zeros. The argument checks are NumPy's.
\<close>

definition tape_next :: "rat list \<Rightarrow> rat \<times> rat list" where
  "tape_next t = (case t of [] \<Rightarrow> (0, []) | x # rest \<Rightarrow> (x, rest))"

definition tape_sampler :: "(int \<Rightarrow> rat list) \<Rightarrow> rat list sampler" where
  "tape_sampler seedf =
     \<lparr>np_seed = seedf,
      np_random = (\<lambda>t. let (x, t') = tape_next t in (if 0 \<le> x \<and> x < 1 then x else 0, t')),
      np_randint = (\<lambda>lo hi t. let (x, t') = tape_next t
                     in (if lo < hi then lo + \<lfloor>x\<rfloor> mod (hi - lo) else lo, t')),
      np_binomial = (\<lambda>n p t.
         if n < 0 \<or> p < 0 \<or> 1 < p then Inl ValueError
         else (let (x, t') = tape_next t
               in Inr (if p = 0 then 0 else if p = 1 then n else max 0 (min n \<lfloor>x\<rfloor>), t'))),
      np_poisson = (\<lambda>lam t.
         if lam < 0 then Inl ValueError
         else (let (x, t') = tape_next t in Inr (if lam = 0 then 0 else max 0 \<lfloor>x\<rfloor>, t'))),
      np_normal = (\<lambda>mu sd t. let (x, t') = tape_next t in (mu + sd * x, t'))\<rparr>"

text \<open>Two seeding functions: one that always yields the empty tape, and one under which the
  seed decides every outcome.\<close>

definition blank_seed :: "int \<Rightarrow> rat list" where
  "blank_seed s = []"

definition counting_seed :: "int \<Rightarrow> rat list" where
  "counting_seed s = replicate 12 (of_int s)"

section \<open>Worked examples\<close>

text \<open>Two age classes, everybody survives, nobody reproduces.\<close>

definition ageing_rates :: vital_rates where
  "ageing_rates =
     \<lparr>female_survival = [1, 1], male_survival = [1, 1], female_fertility = [0, 0],
      male_fertility = [0, 0], env_sd_survival = 0, env_sd_fertility = 0\<rparr>"


text \<open>Sixty individuals of each sex and a ceiling of fifty.\<close>

definition crowded_herd :: population where
  "crowded_herd =
     \<lparr>female = [30, 30], male = [30, 30], carrying_capacity = Some 50, reproduction_age = 1,
      male_birth_prop = 1 / 2\<rparr>"


definition coin_flip_halving :: catastrophe where
  "coin_flip_halving = \<lparr>probability = 1 / 2, mortality_rate = 1 / 2\<rparr>"

definition overkill :: catastrophe where
  "overkill = \<lparr>probability = 1, mortality_rate = 2\<rparr>"

text \<open>The population of the capacity test in \<^verbatim>\<open>tests/test_simulation.py\<close>: a single age class.\<close>

definition single_class_rates :: vital_rates where
  "single_class_rates =
     \<lparr>female_survival = [1], male_survival = [1], female_fertility = [0],
      male_fertility = [0], env_sd_survival = 0, env_sd_fertility = 0\<rparr>"

definition single_class_herd :: population where
  "single_class_herd =
     \<lparr>female = [50], male = [50], carrying_capacity = Some 50, reproduction_age = 1,
      male_birth_prop = 1 / 2\<rparr>"




text \<open>
  A deterministic run that starts below its quasi-extinction threshold (20 individuals,
  threshold 50), and the result it produces.
\<close>

definition ageing_run :: simulation where
  "ageing_run =
     \<lparr>sim_vital_rates = ageing_rates, initial_females = [10, 0], initial_males = [10, 0],
      sim_catastrophe = None, sim_carrying_capacity = None, n_generations = 3,
      q_threshold = 50, n_replicates = 2, demo_noise = False, env_noise = False,
      seed = Some 7\<rparr>"

definition ageing_result :: simulation_result where
  "ageing_result =
     \<lparr>trajectories =
        [[\<lparr>generation = 0, females = 10, males = 10, total = 20\<rparr>,
          \<lparr>generation = 1, females = 10, males = 10, total = 20\<rparr>,
          \<lparr>generation = 2, females = 0, males = 0, total = 0\<rparr>,
          \<lparr>generation = 3, females = 0, males = 0, total = 0\<rparr>],
         [\<lparr>generation = 0, females = 10, males = 10, total = 20\<rparr>,
          \<lparr>generation = 1, females = 10, males = 10, total = 20\<rparr>,
          \<lparr>generation = 2, females = 0, males = 0, total = 0\<rparr>,
          \<lparr>generation = 3, females = 0, males = 0, total = 0\<rparr>]],
      extinction_times = [Gen 1, Gen 1], result_q_threshold = 50\<rparr>"

text \<open>A stochastic run in which half of every class survives on average, and what it returns
  under \<open>counting_seed\<close>.\<close>

definition halving_rates :: vital_rates where
  "halving_rates =
     \<lparr>female_survival = [1 / 2, 1 / 2], male_survival = [1 / 2, 1 / 2],
      female_fertility = [0, 1], male_fertility = [0, 0], env_sd_survival = 0,
      env_sd_fertility = 0\<rparr>"

definition noisy_run :: simulation where
  "noisy_run =
     \<lparr>sim_vital_rates = halving_rates, initial_females = [4, 4], initial_males = [4, 4],
      sim_catastrophe = None, sim_carrying_capacity = None, n_generations = 2,
      q_threshold = 0, n_replicates = 3, demo_noise = True, env_noise = False,
      seed = Some 0\<rparr>"

definition noisy_result :: simulation_result where
  "noisy_result =
     \<lparr>trajectories =
        [[\<lparr>generation = 0, females = 8, males = 8, total = 16\<rparr>,
          \<lparr>generation = 1, females = 0, males = 0, total = 0\<rparr>,
          \<lparr>generation = 2, females = 0, males = 0, total = 0\<rparr>],
         [\<lparr>generation = 0, females = 8, males = 8, total = 16\<rparr>,
          \<lparr>generation = 1, females = 2, males = 3, total = 5\<rparr>,
          \<lparr>generation = 2, females = 1, males = 3, total = 4\<rparr>],
         [\<lparr>generation = 0, females = 8, males = 8, total = 16\<rparr>,
          \<lparr>generation = 1, females = 4, males = 6, total = 10\<rparr>,
          \<lparr>generation = 2, females = 2, males = 6, total = 8\<rparr>]],
      extinction_times = [Gen 1, Inf, Inf], result_q_threshold = 0\<rparr>"

section \<open>Summary statistics: proofs\<close>

lemma length_finite_times: "length (finite_times ts) = length (filter (\<lambda>t. t \<noteq> Inf) ts)"
  by (induction ts) (auto simp: finite_times_def split: etime.splits)

lemma filter_take_all:
  assumes a: "\<forall>i<j. P (xs ! i)" and b: "j \<le> length xs"
  shows "j \<le> length (filter P xs)"
proof -
  have "filter P (take j xs) = take j xs"
    using a b by (auto simp: filter_id_conv in_set_conv_nth)
  then have "length (filter P (take j xs)) = j" using b by simp
  moreover have "length (filter P (take j xs)) \<le> length (filter P (take j xs @ drop j xs))"
    by (simp only: filter_append length_append le_add1)
  ultimately show ?thesis by simp
qed

lemma filter_drop_all:
  assumes a: "\<forall>i. j \<le> i \<and> i < length xs \<longrightarrow> P (xs ! i)"
  shows "length xs - j \<le> length (filter P xs)"
proof -
  have "filter P (drop j xs) = drop j xs"
    using a by (auto simp: filter_id_conv in_set_conv_nth)
  then have "length (filter P (drop j xs)) = length xs - j" by simp
  moreover have "length (filter P (drop j xs)) \<le> length (filter P (take j xs @ drop j xs))"
    by (simp only: filter_append length_append le_add2)
  ultimately show ?thesis by simp
qed

lemma length_filter_sort: "length (filter P (sort xs)) = length (filter P xs)"
  by (simp add: filter_sort)

lemma median_of_sorted:
  fixes s :: "int list"
  assumes srt: "sorted s" and ne: "s \<noteq> []"
  defines "n \<equiv> length s"
  defines "m \<equiv> (if odd n then of_int (s ! (n div 2))
         else (of_int (s ! (n div 2 - 1)) + of_int (s ! (n div 2))) / 2 :: rat)"
  shows "n \<le> 2 * length (filter (\<lambda>x. of_int x \<le> m) s)"
    and "n \<le> 2 * length (filter (\<lambda>x. m \<le> of_int x) s)"
proof -
  have npos: "0 < n" using ne by (simp add: n_def)
  define k where "k = n div 2"
  have kn: "k < n" using npos by (simp add: k_def)
  have mid: "s ! (k - 1) \<le> s ! k" using srt kn by (simp add: sorted_nth_mono n_def)
  then have mid': "(of_int (s ! (k - 1)) :: rat) \<le> of_int (s ! k)" by simp
  have lo: "of_int (s ! (if odd n then k else k - 1)) \<le> m"
    using mid' by (cases "odd n") (simp_all add: m_def k_def field_simps)
  have hi: "m \<le> of_int (s ! k)"
    using mid' by (cases "odd n") (simp_all add: m_def k_def field_simps)
  define j where "j = (if odd n then k + 1 else k)"
  have jn: "j \<le> length s" and nj: "n \<le> 2 * j"
    using kn by (auto simp: j_def n_def k_def elim: oddE)
  have "\<forall>i<j. of_int (s ! i) \<le> m"
  proof (intro allI impI)
    fix i assume "i < j"
    then have "i \<le> (if odd n then k else k - 1)"
      using npos by (auto simp: j_def split: if_splits)
    moreover have "(if odd n then k else k - 1) < length s" using kn by (auto simp: n_def)
    ultimately have "s ! i \<le> s ! (if odd n then k else k - 1)"
      using srt by (simp add: sorted_nth_mono)
    then have "(of_int (s ! i) :: rat) \<le> of_int (s ! (if odd n then k else k - 1))"
      by (simp only: of_int_le_iff)
    then show "of_int (s ! i) \<le> m" using lo by linarith
  qed
  from filter_take_all [where P = "\<lambda>x. of_int x \<le> m", OF this jn]
  show "n \<le> 2 * length (filter (\<lambda>x. of_int x \<le> m) s)" using nj by linarith
  have "\<forall>i. k \<le> i \<and> i < length s \<longrightarrow> m \<le> of_int (s ! i)"
  proof (intro allI impI)
    fix i assume "k \<le> i \<and> i < length s"
    then have "s ! k \<le> s ! i" using srt by (simp add: sorted_nth_mono)
    then have "(of_int (s ! k) :: rat) \<le> of_int (s ! i)" by (simp only: of_int_le_iff)
    then show "m \<le> of_int (s ! i)" using hi by linarith
  qed
  from filter_drop_all [where P = "\<lambda>x. m \<le> of_int x", OF this]
  have "length s - k \<le> length (filter (\<lambda>x. m \<le> of_int x) s)" .
  moreover have "n \<le> 2 * (length s - k)" by (simp add: n_def k_def)
  ultimately show "n \<le> 2 * length (filter (\<lambda>x. m \<le> of_int x) s)" by linarith
qed

lemma np_median_is_median:
  assumes "xs \<noteq> []"
  shows "is_median (np_median xs) xs"
proof -
  have ne: "sort xs \<noteq> []" using assms by (metis length_sort length_0_conv)
  have eq: "np_median xs =
      (if odd (length (sort xs)) then of_int (sort xs ! (length (sort xs) div 2))
       else (of_int (sort xs ! (length (sort xs) div 2 - 1))
             + of_int (sort xs ! (length (sort xs) div 2))) / 2)"
    by (simp add: np_median_def Let_def)
  have a: "length (sort xs) \<le> 2 * length (filter (\<lambda>x. of_int x \<le> np_median xs) (sort xs))"
    unfolding eq by (rule median_of_sorted(1) [OF sorted_sort ne])
  have b: "length (sort xs) \<le> 2 * length (filter (\<lambda>x. np_median xs \<le> of_int x) (sort xs))"
    unfolding eq by (rule median_of_sorted(2) [OF sorted_sort ne])
  show ?thesis
    using a b unfolding is_median_def length_filter_sort by simp
qed

text \<open>
  Claim C7. \<open>summary\<close> reports the number of replicates as the length of the
  extinction-time list, the number of extinctions as the number of finite entries, the
  extinction probability as their quotient, and the mean and a median of the finite
  entries only; the probability is NaN when there are no replicates, and the mean and
  median are NaN when no replicate went extinct. For the times 3, never, 5, never it
  reports 4 replicates, 2 extinctions, probability 1/2, mean 4 and median 4.
\<close>

theorem summary_statistics:
  "replicates (summary res) = length (extinction_times res)
   \<and> extinct (summary res) = length (finite_times (extinction_times res))
   \<and> extinction_probability (summary res) =
       (if extinction_times res = [] then None
        else Some (of_nat (extinct (summary res)) / of_nat (replicates (summary res))))
   \<and> mean_time_to_extinction (summary res) =
       (if finite_times (extinction_times res) = [] then None
        else Some (of_int (sum_list (finite_times (extinction_times res)))
                   / of_nat (length (finite_times (extinction_times res)))))
   \<and> (case median_time_to_extinction (summary res) of
        None \<Rightarrow> finite_times (extinction_times res) = []
      | Some m \<Rightarrow> finite_times (extinction_times res) \<noteq> []
                  \<and> is_median m (finite_times (extinction_times res)))
   \<and> summary \<lparr>trajectories = T, extinction_times = [Gen 3, Inf, Gen 5, Inf],
               result_q_threshold = q\<rparr>
       = \<lparr>replicates = 4, extinct = 2, extinction_probability = Some (1 / 2),
          mean_time_to_extinction = Some 4, median_time_to_extinction = Some 4\<rparr>"
proof -
  have ex: "summary \<lparr>trajectories = T, extinction_times = [Gen 3, Inf, Gen 5, Inf],
               result_q_threshold = q\<rparr>
       = \<lparr>replicates = 4, extinct = 2, extinction_probability = Some (1 / 2),
          mean_time_to_extinction = Some 4, median_time_to_extinction = Some 4\<rparr>"
    by (simp add: summary_def finite_times_def np_mean_def np_median_def)
  have med: "(case median_time_to_extinction (summary res) of
        None \<Rightarrow> finite_times (extinction_times res) = []
      | Some m \<Rightarrow> finite_times (extinction_times res) \<noteq> []
                  \<and> is_median m (finite_times (extinction_times res)))"
    by (simp add: summary_def Let_def np_median_is_median)
  have rest: "replicates (summary res) = length (extinction_times res)
   \<and> extinct (summary res) = length (finite_times (extinction_times res))
   \<and> extinction_probability (summary res) =
       (if extinction_times res = [] then None
        else Some (of_nat (extinct (summary res)) / of_nat (replicates (summary res))))
   \<and> mean_time_to_extinction (summary res) =
       (if finite_times (extinction_times res) = [] then None
        else Some (of_int (sum_list (finite_times (extinction_times res)))
                   / of_nat (length (finite_times (extinction_times res)))))"
    by (simp add: summary_def Let_def length_finite_times np_mean_def)
  show ?thesis using ex med rest by (simp only: simp_thms)
qed

theorem summary_statistics_witness:
  "replicates (summary \<lparr>trajectories = [], extinction_times = [Gen 2, Gen 9, Inf, Gen 4],
                        result_q_threshold = 50\<rparr>) = 4
   \<and> extinct (summary \<lparr>trajectories = [], extinction_times = [Gen 2, Gen 9, Inf, Gen 4],
                       result_q_threshold = 50\<rparr>) = 3
   \<and> is_median 4 [2, 9, 4]"
  using summary_statistics [of "\<lparr>trajectories = [], extinction_times = [Gen 2, Gen 9, Inf, Gen 4],
                        result_q_threshold = 50\<rparr>"]
  by (simp add: finite_times_def is_median_def)

section \<open>Non-negative counts and the carrying capacity\<close>

lemma bindE_Inr_iff: "bindE m f = Inr y \<longleftrightarrow> (\<exists>x. m = Inr x \<and> f x = Inr y)"
  by (cases m) (simp_all add: bindE_def)

lemma bindE_Inr [simp]: "bindE (Inr x) f = f x"
  by (simp add: bindE_def)

lemma bindE_Inl [simp]: "bindE (Inl e) f = Inl e"
  by (simp add: bindE_def)




lemma setitem_length: "setitem xs i v = Inr ys \<Longrightarrow> length ys = length xs"
  by (auto simp: setitem_def split: option.splits)







lemma thinned_det:
  "thinned smp False n p g = Inr (py_round (of_int n * p), g)"
  by (simp add: thinned_def)





















lemmas transition_defs = advance_generation_def effective_rates_def survival_def
  survival_body_def reproduction_def births_body_def assign_sexes_def enforce_capacity_def
  thinned_def getitem_def setitem_def additem_def norm_index_def py_range_def py_round_def
  astype_int_def

section \<open>The plus-group with a single age class\<close>

text \<open>
  Claim C2 at one age class. The claim (and \<^verbatim>\<open>test_carrying_capacity_deterministic\<close>, which
  expects a total of 50) has the survivors of the last class stay in it. With a single class
  the last class is class 0, and the assignment of the births to class 0 overwrites the
  survivors just added there: the whole population is lost in one transition.
\<close>

theorem last_class_survivors_lost:
  "advance_generation smp single_class_rates None False False single_class_herd g
     = Inr (single_class_herd\<lparr>female := [0], male := [0]\<rparr>, g)"
  by (simp add: transition_defs single_class_rates_def single_class_herd_def)

section \<open>Construction of rates and catastrophes\<close>

text \<open>
  Claim C8 as stated fails: the constructors accept a negative probability, a mortality
  rate of 2 and negative standard deviations, and the objects are usable; a transition
  with a mortality rate of 2 returns negative counts.
\<close>

theorem constructors_accept_any_value:
  "Catastrophe (- 1) 2 = Inr \<lparr>probability = - 1, mortality_rate = 2\<rparr>
   \<and> VitalRates [1, 1] [1, 1] [0, 0] [0, 0] (- 1) (- 1) =
       Inr (ageing_rates\<lparr>env_sd_survival := - 1, env_sd_fertility := - 1\<rparr>)
   \<and> Catastrophe 1 2 = Inr overkill
   \<and> advance_generation (tape_sampler blank_seed) ageing_rates (Some overkill) False False
         (crowded_herd\<lparr>carrying_capacity := None\<rparr>) []
       = Inr (crowded_herd\<lparr>female := [0, - 60], male := [0, - 60], carrying_capacity := None\<rparr>, [])"
proof -
  have "advance_generation (tape_sampler blank_seed) ageing_rates (Some overkill) False False
         (crowded_herd\<lparr>carrying_capacity := None\<rparr>) []
       = Inr (crowded_herd\<lparr>female := [0, - 60], male := [0, - 60], carrying_capacity := None\<rparr>, [])"
    by code_simp
  then show ?thesis
    by (simp add: Catastrophe_def VitalRates_def ageing_rates_def overkill_def)
qed

lemma normal_vec_length: "length (fst (normal_vec smp mu sd n g)) = n"
  by (induction n arbitrary: g) (simp_all add: split_beta Let_def)

text \<open>
  Claim C8, as amended. Constructing a \<open>Catastrophe\<close> or a \<open>VitalRates\<close> never fails and
  stores the arguments as they are. Standard deviations that are not positive (negative
  ones included) leave the baseline rates untouched and draw nothing, and a catastrophe
  whose probability is not positive never fires on a non-negative uniform draw.
\<close>

theorem construction_unchecked:
  "Catastrophe p m = Inr \<lparr>probability = p, mortality_rate = m\<rparr>
   \<and> VitalRates fs ms ff mf sd_s sd_f =
       Inr \<lparr>female_survival = fs, male_survival = ms, female_fertility = ff,
            male_fertility = mf, env_sd_survival = sd_s, env_sd_fertility = sd_f\<rparr>
   \<and> (sd_s \<le> 0 \<and> sd_f \<le> 0 \<longrightarrow>
        apply_environmental_noise smp
          \<lparr>female_survival = fs, male_survival = ms, female_fertility = ff,
           male_fertility = mf, env_sd_survival = sd_s, env_sd_fertility = sd_f\<rparr> g
        = ((fs, ms, ff, mf), g))
   \<and> (p \<le> 0 \<and> 0 \<le> fst (np_random smp g) \<longrightarrow>
        apply_catastrophe smp demo \<lparr>probability = p, mortality_rate = m\<rparr> ((new_f, new_m), g)
        = Inr ((new_f, new_m), snd (np_random smp g)))"
  by (auto simp: Catastrophe_def VitalRates_def apply_environmental_noise_def
      apply_catastrophe_def occurs_def split: prod.splits)

theorem construction_unchecked_witness:
  "Catastrophe (- 1) 2 = Inr \<lparr>probability = - 1, mortality_rate = 2\<rparr>
   \<and> apply_environmental_noise (tape_sampler blank_seed)
          (ageing_rates\<lparr>env_sd_survival := - 1, env_sd_fertility := - 1\<rparr>) [5, 7]
        = (([1, 1], [1, 1], [0, 0], [0, 0]), [5, 7])
   \<and> apply_catastrophe (tape_sampler blank_seed) True \<lparr>probability = - 1, mortality_rate = 2\<rparr>
          (([3, 4], [5, 6]), [1 / 2])
        = Inr (([3, 4], [5, 6]), [])"
  using construction_unchecked [of "- 1" 2 "[1, 1]" "[1, 1]" "[0, 0]" "[0, 0]" "- 1" "- 1"
      "tape_sampler blank_seed" "[5, 7]"]
    construction_unchecked [of "- 1" 2 "[1, 1]" "[1, 1]" "[0, 0]" "[0, 0]" "- 1" "- 1"
      "tape_sampler blank_seed" "[1 / 2]" True "[3, 4]" "[5, 6]"]
  by (simp add: ageing_rates_def tape_sampler_def tape_next_def)

section \<open>Determinism without noise\<close>

lemma agree_outcome: "agree g h r r' \<Longrightarrow> outcome r = outcome r'"
  by (auto simp: agree_def outcome_def split: sum.splits)

lemma agree_Inr: "agree g h (Inr (a, g)) (Inr (a, h))"
  by (simp add: agree_def)

lemma agree_bindE:
  assumes "agree g h m m'" and "\<And>a. agree g1 h1 (f (a, g)) (f' (a, h))"
  shows "agree g1 h1 (bindE m f) (bindE m' f')"
proof (cases m)
  case (Inl e)
  then show ?thesis using assms(1) by (simp add: agree_def)
next
  case (Inr x)
  then show ?thesis using assms by (cases x) (simp add: agree_def)
qed

lemma agree_for_each:
  assumes "\<And>i a. agree g h (body i (a, g)) (body' i (a, h))"
  shows "agree g h (for_each xs body (a, g)) (for_each xs body' (a, h))"
proof (induction xs arbitrary: a)
  case Nil
  then show ?case by (simp add: agree_def)
next
  case (Cons i rest)
  show ?case
  proof (cases "body i (a, g)")
    case (Inl e)
    then show ?thesis using assms [of i a] by (simp add: agree_def)
  next
    case (Inr x)
    obtain a1 g1 where x: "x = (a1, g1)" by (cases x)
    from Inr assms [of i a] have "g1 = g" "body' i (a, h) = Inr (a1, h)"
      by (simp_all add: agree_def x)
    then show ?thesis using Inr Cons.IH [of a1] by (simp add: x)
  qed
qed

lemma agree_thinned: "agree g h (thinned smp False n p g) (thinned smp' False n p h)"
  by (simp add: thinned_det agree_def)

lemma survival_body_agree:
  "agree g h (survival_body smp False pop fs ms src dst (a, g))
             (survival_body smp' False pop fs ms src dst (a, h))"
  by (cases a) (simp add: survival_body_def thinned_det agree_def bindE_def split: sum.splits)

lemma survival_agree:
  "agree g h (survival smp False pop fs ms g) (survival smp' False pop fs ms h)"
  unfolding survival_def
  by (rule agree_bindE [OF agree_for_each]) (rule survival_body_agree)+

lemma births_body_agree:
  "agree g h (births_body smp False new_f ff i (a, g)) (births_body smp' False new_f ff i (a, h))"
  by (simp add: births_body_def agree_def bindE_def split: sum.splits)

lemma reproduction_agree:
  "agree g h (reproduction smp False pop ff new_f g) (reproduction smp' False pop ff new_f h)"
  unfolding reproduction_def by (rule agree_for_each) (rule births_body_agree)

lemma assign_sexes_agree:
  "agree g h (assign_sexes smp False pop births g) (assign_sexes smp' False pop births h)"
  by (simp add: assign_sexes_def thinned_det agree_def)

lemma catastrophe_body_agree:
  "agree g h (catastrophe_body smp False c i (a, g)) (catastrophe_body smp' False c i (a, h))"
  by (cases a) (simp add: catastrophe_body_def thinned_det agree_def bindE_def split: sum.splits)

lemma apply_catastrophe_agree:
  assumes "fst (occurs smp c g) = fst (occurs smp' c h)"
  shows "agree (snd (occurs smp c g)) (snd (occurs smp' c h))
           (apply_catastrophe smp False c (a, g)) (apply_catastrophe smp' False c (a, h))"
proof (cases a)
  case (Pair nf nm)
  show ?thesis
  proof (cases "fst (occurs smp c g)")
    case True
    then show ?thesis using assms agree_for_each [of _ _ "catastrophe_body smp False c"
          "catastrophe_body smp' False c", OF catastrophe_body_agree]
      by (simp add: apply_catastrophe_def Pair split_beta)
  next
    case False
    then show ?thesis using assms
      by (simp add: apply_catastrophe_def Pair split_beta agree_def)
  qed
qed

lemma enforce_capacity_agree:
  "agree g h (enforce_capacity smp False pop (a, g)) (enforce_capacity smp' False pop (a, h))"
  by (cases a) (simp add: enforce_capacity_def agree_def Let_def split: option.splits)

lemma setitem_agree:
  assumes "\<And>ys. agree g h (f ys) (f' ys)"
  shows "agree g h (bindE (setitem xs i v) f) (bindE (setitem xs i v) f')"
  using assms by (cases "setitem xs i v") (simp_all add: agree_def)

lemma catastrophe_stage_agree:
  assumes "cat = None \<or> (\<exists>c. cat = Some c \<and> fst (occurs smp c g) = fst (occurs smp' c h))"
  shows "agree (case cat of None \<Rightarrow> g | Some c \<Rightarrow> snd (occurs smp c g))
           (case cat of None \<Rightarrow> h | Some c \<Rightarrow> snd (occurs smp' c h))
           (case cat of None \<Rightarrow> Inr (a, g) | Some c \<Rightarrow> apply_catastrophe smp False c (a, g))
           (case cat of None \<Rightarrow> Inr (a, h) | Some c \<Rightarrow> apply_catastrophe smp' False c (a, h))"
proof (cases cat)
  case None
  then show ?thesis by (simp add: agree_Inr)
next
  case (Some c)
  then have "fst (occurs smp c g) = fst (occurs smp' c h)" using assms by simp
  from apply_catastrophe_agree [OF this] show ?thesis using Some by simp
qed

lemma advance_generation_agree:
  assumes "cat = None \<or> (\<exists>c. cat = Some c \<and> fst (occurs smp c g) = fst (occurs smp' c h))"
  shows "agree (case cat of None \<Rightarrow> g | Some c \<Rightarrow> snd (occurs smp c g))
           (case cat of None \<Rightarrow> h | Some c \<Rightarrow> snd (occurs smp' c h))
           (advance_generation smp vr cat False False pop g)
           (advance_generation smp' vr cat False False pop h)"
  apply (simp add: advance_generation_def effective_rates_def)
  apply (rule agree_bindE [OF survival_agree])
  apply (simp add: split_beta)
  apply (rule agree_bindE [OF reproduction_agree])
  apply (simp add: split_beta)
  apply (rule agree_bindE [OF assign_sexes_agree])
  apply (simp add: split_beta)
  apply (rule setitem_agree)
  apply (rule setitem_agree)
  apply (rule agree_bindE [OF catastrophe_stage_agree [OF assms]])
  apply (rule agree_bindE [OF enforce_capacity_agree])
  apply (simp add: split_beta agree_def)
  done

text \<open>
  Claim C4, as amended. With demographic and environmental noise off, the result of a
  transition is a function of the counts, the baseline rates and, when a catastrophe is
  configured, of whether its occurrence draw fires: two invocations from the same
  population agree whenever no catastrophe is configured or the two draws come out alike,
  whatever the random source and its state.
\<close>

theorem deterministic_without_noise:
  assumes "cat = None \<or> (\<exists>c. cat = Some c \<and> fst (occurs smp c g) = fst (occurs smp' c g'))"
  shows "outcome (advance_generation smp vr cat False False pop g)
         = outcome (advance_generation smp' vr cat False False pop g')"
  by (rule agree_outcome [OF advance_generation_agree [OF assms]])

theorem deterministic_without_noise_witness:
  "outcome (advance_generation (tape_sampler blank_seed) ageing_rates (Some coin_flip_halving)
              False False crowded_herd [0])
   = outcome (advance_generation (tape_sampler blank_seed) ageing_rates (Some coin_flip_halving)
              False False crowded_herd [1 / 4])"
proof -
  have "fst (occurs (tape_sampler blank_seed) coin_flip_halving [0])
        = fst (occurs (tape_sampler blank_seed) coin_flip_halving [1 / 4])"
    by (simp add: occurs_def tape_sampler_def tape_next_def coin_flip_halving_def)
  then show ?thesis
    by (intro deterministic_without_noise) simp
qed

text \<open>
  Claim C4 as stated fails once a catastrophe is configured: \<open>occurs\<close> draws from the
  random source with the noise flags off as well. From the same population, rates and
  catastrophe (probability 1/2), a draw of 0 halves the population and a draw of 3/4
  leaves it whole.
\<close>

theorem catastrophe_draw_decides_outcome:
  "outcome (advance_generation (tape_sampler blank_seed) ageing_rates (Some coin_flip_halving)
              False False (crowded_herd\<lparr>carrying_capacity := None\<rparr>) [0])
     = Inr (crowded_herd\<lparr>female := [0, 30], male := [0, 30], carrying_capacity := None\<rparr>)
   \<and> outcome (advance_generation (tape_sampler blank_seed) ageing_rates (Some coin_flip_halving)
              False False (crowded_herd\<lparr>carrying_capacity := None\<rparr>) [3 / 4])
     = Inr (crowded_herd\<lparr>female := [0, 60], male := [0, 60], carrying_capacity := None\<rparr>)"
  by code_simp

section \<open>The replicate loop\<close>

lemma generation_loop_Inr:
  assumes "generation_loop smp sim gens pop records g = Inr (records', ext, g')"
  shows "\<exists>rows. records' = records @ rows \<and> map generation rows = take (length rows) gens \<and>
     (case ext of
        Inf \<Rightarrow> length rows = length gens \<and> (\<forall>r\<in>set rows. q_threshold sim < total r)
      | Gen e \<Rightarrow> rows \<noteq> [] \<and> length rows \<le> length gens \<and> e = gens ! (length rows - 1) \<and>
                 (\<forall>r\<in>set (butlast rows). q_threshold sim < total r) \<and>
                 total (last rows) \<le> q_threshold sim)"
  using assms
proof (induction gens arbitrary: pop records g)
  case Nil
  then show ?case by simp
next
  case (Cons gen rest)
  from Cons.prems obtain pop1 g1 where
    adv: "advance_generation smp (sim_vital_rates sim) (sim_catastrophe sim)
             (demo_noise sim) (env_noise sim) pop g = Inr (pop1, g1)"
    by (auto split: sum.splits)
  define r where "r = record_row gen pop1"
  have gr: "generation r = gen" and tr: "total r = total_population pop1"
    by (simp_all add: r_def record_row_def)
  show ?case
  proof (cases "is_extinct pop1 (q_threshold sim)")
    case True
    then have "records' = records @ [r]" "ext = Gen gen"
      using Cons.prems adv by (simp_all add: r_def)
    moreover have "total r \<le> q_threshold sim" using True by (simp add: tr is_extinct_def)
    ultimately show ?thesis using gr by (intro exI [of _ "[r]"]) simp
  next
    case False
    then have "generation_loop smp sim rest pop1 (records @ [r]) g1 = Inr (records', ext, g')"
      using Cons.prems adv by (simp add: r_def)
    from Cons.IH [OF this] obtain rows where
      rows: "records' = (records @ [r]) @ rows" "map generation rows = take (length rows) rest"
      "(case ext of
        Inf \<Rightarrow> length rows = length rest \<and> (\<forall>r\<in>set rows. q_threshold sim < total r)
      | Gen e \<Rightarrow> rows \<noteq> [] \<and> length rows \<le> length rest \<and> e = rest ! (length rows - 1) \<and>
                 (\<forall>r\<in>set (butlast rows). q_threshold sim < total r) \<and>
                 total (last rows) \<le> q_threshold sim)"
      by blast
    have big: "q_threshold sim < total r" using False by (simp add: tr is_extinct_def)
    show ?thesis
    proof (intro exI [of _ "r # rows"] conjI)
      show "records' = records @ r # rows" using rows(1) by simp
      show "map generation (r # rows) = take (length (r # rows)) (gen # rest)"
        using rows(2) gr by simp
      show "case ext of
        Inf \<Rightarrow> length (r # rows) = length (gen # rest) \<and> (\<forall>r\<in>set (r # rows). q_threshold sim < total r)
      | Gen e \<Rightarrow> r # rows \<noteq> [] \<and> length (r # rows) \<le> length (gen # rest) \<and>
                 e = (gen # rest) ! (length (r # rows) - 1) \<and>
                 (\<forall>r\<in>set (butlast (r # rows)). q_threshold sim < total r) \<and>
                 total (last (r # rows)) \<le> q_threshold sim"
      proof (cases ext)
        case (Gen e)
        then show ?thesis using rows(3) big by (cases rows) auto
      next
        case Inf
        then show ?thesis using rows(3) big by simp
      qed
    qed
  qed
qed

lemma run_replicate_Inr:
  assumes "run_replicate smp sim b r = Inr (traj, ext, g')"
  obtains rows where
    "generation_loop smp sim (py_range 1 (n_generations sim + 1)) (initial_population sim)
        [record_row 0 (initial_population sim)] (np_seed smp (replicate_seed b r))
      = Inr (record_row 0 (initial_population sim) # rows, ext, g')"
    "traj = record_row 0 (initial_population sim) # rows @ padding ext (n_generations sim)"
    "map generation rows = take (length rows) (py_range 1 (n_generations sim + 1))"
    "(case ext of
        Inf \<Rightarrow> length rows = length (py_range 1 (n_generations sim + 1))
               \<and> (\<forall>r\<in>set rows. q_threshold sim < total r)
      | Gen e \<Rightarrow> rows \<noteq> [] \<and> length rows \<le> length (py_range 1 (n_generations sim + 1)) \<and>
                 e = py_range 1 (n_generations sim + 1) ! (length rows - 1) \<and>
                 (\<forall>r\<in>set (butlast rows). q_threshold sim < total r) \<and>
                 total (last rows) \<le> q_threshold sim)"
proof -
  from assms obtain records where
    gl: "generation_loop smp sim (py_range 1 (n_generations sim + 1)) (initial_population sim)
        [record_row 0 (initial_population sim)] (np_seed smp (replicate_seed b r))
      = Inr (records, ext, g')"
    and traj: "traj = records @ padding ext (n_generations sim)"
    unfolding run_replicate_def bindE_Inr_iff by (auto split: prod.splits)
  from generation_loop_Inr [OF gl] obtain rows where
    rows: "records = [record_row 0 (initial_population sim)] @ rows"
      "map generation rows = take (length rows) (py_range 1 (n_generations sim + 1))"
    "(case ext of
        Inf \<Rightarrow> length rows = length (py_range 1 (n_generations sim + 1))
               \<and> (\<forall>r\<in>set rows. q_threshold sim < total r)
      | Gen e \<Rightarrow> rows \<noteq> [] \<and> length rows \<le> length (py_range 1 (n_generations sim + 1)) \<and>
                 e = py_range 1 (n_generations sim + 1) ! (length rows - 1) \<and>
                 (\<forall>r\<in>set (butlast rows). q_threshold sim < total r) \<and>
                 total (last rows) \<le> q_threshold sim)"
    by blast
  show thesis
    by (rule that [of rows]) (use gl traj rows in simp_all)
qed

lemma range_one_length: "length (py_range 1 (n + 1)) = nat n"
  by (simp add: py_range_def)

lemma range_one_nth: "k < nat n \<Longrightarrow> py_range 1 (n + 1) ! k = 1 + int k"
  by (simp add: py_range_def)

lemma extinction_time_is_row_count:
  assumes "rows \<noteq> []" "length rows \<le> length (py_range 1 (n + 1))"
    "e = py_range 1 (n + 1) ! (length rows - 1)"
  shows "e = int (length rows)" "1 \<le> e" "e \<le> n"
proof -
  have "0 < length rows" using assms(1) by simp
  moreover have  "length rows \<le> nat n" using assms(2) by (simp add: range_one_length)
  ultimately have "length rows - 1 < nat n" by linarith
  then have "e = 1 + int (length rows - 1)" using assms(3) by (simp add: range_one_nth)
  then show "e = int (length rows)" using \<open>0 < length rows\<close> by simp
  then show "1 \<le> e" "e \<le> n" using \<open>0 < length rows\<close> \<open>length rows \<le> nat n\<close> by linarith+
qed

lemma padding_length:
  assumes "e = int L" "L \<le> nat n"
  shows "length (padding (Gen e) n) = nat n - L"
  using assms by (auto simp: padding_def py_range_def)

lemma padding_nth:
  assumes "e = int L" "i < nat n - L"
  shows "padding (Gen e) n ! i = zero_row (int (L + 1 + i))"
proof -
  have "e < n" using assms by linarith
  moreover have "i < length [e + 1..n]" using assms by simp
  moreover have "[e + 1..n] ! i = e + 1 + int i" using assms by (intro nth_upto) linarith
  moreover have "e + 1 + int i = int (L + 1 + i)" using assms(1) by simp
  ultimately show ?thesis by (simp only: padding_def py_range_def etime.case if_True nth_map add_diff_cancel_right')
qed

lemma run_replicate_shape:
  assumes rr: "run_replicate smp sim b r = Inr (traj, ext, g')"
    and n0: "0 \<le> n_generations sim"
  shows "length traj = nat (n_generations sim) + 1"
    and "\<And>j. j < length traj \<Longrightarrow> generation (traj ! j) = int j"
    and "\<And>k j. 1 \<le> k \<Longrightarrow> k < j \<Longrightarrow> j < length traj \<Longrightarrow> total (traj ! k) \<le> q_threshold sim
           \<Longrightarrow> traj ! j = zero_row (int j)"
proof -
  define n where "n = n_generations sim"
  define row0 where "row0 = record_row 0 (initial_population sim)"
  from rr obtain rows where
    traj: "traj = row0 # rows @ padding ext n"
    and gens: "map generation rows = take (length rows) (py_range 1 (n + 1))"
    and ext: "(case ext of
        Inf \<Rightarrow> length rows = length (py_range 1 (n + 1))
               \<and> (\<forall>r\<in>set rows. q_threshold sim < total r)
      | Gen e \<Rightarrow> rows \<noteq> [] \<and> length rows \<le> length (py_range 1 (n + 1)) \<and>
                 e = py_range 1 (n + 1) ! (length rows - 1) \<and>
                 (\<forall>r\<in>set (butlast rows). q_threshold sim < total r) \<and>
                 total (last rows) \<le> q_threshold sim)"
    unfolding n_def row0_def by (rule run_replicate_Inr)
  define L where "L = length rows"
  have Ln: "L \<le> nat n"
    using ext by (cases ext) (simp_all add: L_def range_one_length)
  have plen: "length (padding ext n) = nat n - L"
  proof (cases ext)
    case (Gen e)
    then have "e = int L" using ext extinction_time_is_row_count(1) [of rows n e]
      by (simp add: L_def)
    then show ?thesis using Gen Ln by (simp add: padding_length)
  next
    case Inf
    then show ?thesis using ext by (simp add: padding_def L_def range_one_length)
  qed
  show len: "length traj = nat (n_generations sim) + 1"
    using Ln plen by (simp add: traj L_def [symmetric] n_def [symmetric])
  have pad: "\<And>j. L < j \<Longrightarrow> j < length traj \<Longrightarrow> traj ! j = zero_row (int j)"
  proof -
    fix j assume j: "L < j" "j < length traj"
    then have ne: "padding ext n \<noteq> []" using len plen n_def by auto
    then obtain e where Gen: "ext = Gen e" by (cases ext) (simp_all add: padding_def)
    then have e: "e = int L" using ext extinction_time_is_row_count(1) [of rows n e]
      by (simp add: L_def)
    have i: "j - 1 - L < nat n - L" using j len n_def by linarith
    have "traj ! j = padding ext n ! (j - 1 - L)"
      using j by (simp add: traj nth_Cons' nth_append L_def)
    also have "\<dots> = zero_row (int (L + 1 + (j - 1 - L)))"
      unfolding Gen by (rule padding_nth [OF e i])
    also have "L + 1 + (j - 1 - L) = j" using j by linarith
    finally show "traj ! j = zero_row (int j)" .
  qed
  have real_row: "\<And>j. 1 \<le> j \<Longrightarrow> j \<le> L \<Longrightarrow> traj ! j = rows ! (j - 1)"
    by (simp add: traj nth_Cons' nth_append L_def)
  show "\<And>j. j < length traj \<Longrightarrow> generation (traj ! j) = int j"
  proof -
    fix j assume j: "j < length traj"
    consider "j = 0" | "1 \<le> j" "j \<le> L" | "L < j" by linarith
    then show "generation (traj ! j) = int j"
    proof cases
      case 1
      then show ?thesis by (simp add: traj row0_def record_row_def)
    next
      case 2
      then have jl: "j - 1 < length rows" by (simp add: L_def)
      have "generation (rows ! (j - 1)) = map generation rows ! (j - 1)"
        using jl by simp
      also have "\<dots> = py_range 1 (n + 1) ! (j - 1)" using jl by (simp add: gens)
      also have "\<dots> = 1 + int (j - 1)" using jl Ln by (intro range_one_nth) (simp add: L_def)
      finally show ?thesis using 2 real_row by simp
    next
      case 3
      then show ?thesis using pad j by (simp add: zero_row_def)
    qed
  qed
  show "\<And>k j. 1 \<le> k \<Longrightarrow> k < j \<Longrightarrow> j < length traj \<Longrightarrow> total (traj ! k) \<le> q_threshold sim
           \<Longrightarrow> traj ! j = zero_row (int j)"
  proof -
    fix k j
    assume k: "1 \<le> k" "k < j" "j < length traj" "total (traj ! k) \<le> q_threshold sim"
    have "L \<le> k"
    proof (rule ccontr)
      assume "\<not> L \<le> k"
      then have kl: "k < L" by simp
      then have tk: "traj ! k = rows ! (k - 1)" using k(1) real_row by simp
      have "q_threshold sim < total (rows ! (k - 1))"
      proof (cases ext)
        case (Gen e)
        have "k - 1 < length (butlast rows)" using kl k(1) by (simp add: L_def)
        then have "butlast rows ! (k - 1) \<in> set (butlast rows)" by (rule nth_mem)
        moreover have "butlast rows ! (k - 1) = rows ! (k - 1)"
          using \<open>k - 1 < length (butlast rows)\<close> by (simp add: nth_butlast)
        ultimately show ?thesis using ext Gen by auto
      next
        case Inf
        have "k - 1 < length rows" using kl by (simp add: L_def)
        then have "rows ! (k - 1) \<in> set rows" by (rule nth_mem)
        then show ?thesis using ext Inf by auto
      qed
      then show False using k(4) tk by simp
    qed
    then have "L < j" using k(2) by simp
    then show "traj ! j = zero_row (int j)" using pad k(3) by simp
  qed
qed


lemma replicate_body_Inr:
  assumes "replicate_body smp sim b r ((T, E), g) = Inr ((T', E'), g')"
  shows "\<exists>df e. run_replicate smp sim b r = Inr (df, e, g') \<and> T' = T @ [df] \<and> E' = E @ [e]"
  using assms unfolding replicate_body_def
  by (auto simp: bindE_def split: sum.splits)

lemma replicate_loop_Inr:
  assumes "for_each rs (replicate_body smp sim b) ((T, E), g) = Inr ((T', E'), g')"
  shows "\<exists>T2 E2. T' = T @ T2 \<and> E' = E @ E2 \<and> length T2 = length rs \<and> length E2 = length rs \<and>
           (\<forall>k<length rs. \<exists>gk. run_replicate smp sim b (rs ! k) = Inr (T2 ! k, E2 ! k, gk))"
  using assms
proof (induction rs arbitrary: T E g)
  case Nil
  then show ?case by simp
next
  case (Cons r rest)
  from Cons.prems obtain s1 where
    b: "replicate_body smp sim b r ((T, E), g) = Inr s1"
    and l: "for_each rest (replicate_body smp sim b) s1 = Inr ((T', E'), g')"
    by (auto split: sum.splits)
  obtain T1 E1 g1 where s1: "s1 = ((T1, E1), g1)" by (metis surj_pair)
  from replicate_body_Inr [OF b [unfolded s1]] obtain df e where
    rr: "run_replicate smp sim b r = Inr (df, e, g1)" and TE: "T1 = T @ [df]" "E1 = E @ [e]"
    by blast
  from Cons.IH [OF l [unfolded s1]] obtain T2 E2 where
    ih: "T' = T1 @ T2" "E' = E1 @ E2" "length T2 = length rest" "length E2 = length rest"
      "\<forall>k<length rest. \<exists>gk. run_replicate smp sim b (rest ! k) = Inr (T2 ! k, E2 ! k, gk)"
    by blast
  have "\<forall>k<length (r # rest). \<exists>gk. run_replicate smp sim b ((r # rest) ! k)
           = Inr ((df # T2) ! k, (e # E2) ! k, gk)"
  proof (intro allI impI)
    fix k assume "k < length (r # rest)"
    then show "\<exists>gk. run_replicate smp sim b ((r # rest) ! k) = Inr ((df # T2) ! k, (e # E2) ! k, gk)"
      using rr ih(5) by (cases k) auto
  qed
  then show ?case
    using ih(1-4) TE by (intro exI [of _ "df # T2"] exI [of _ "e # E2"]) simp
qed

lemma run_Inr:
  assumes "run smp sim g0 = Inr (res, g')"
  shows "length (trajectories res) = nat (n_replicates sim)"
    and "length (extinction_times res) = nat (n_replicates sim)"
    and "\<And>k. k < nat (n_replicates sim) \<Longrightarrow>
           \<exists>gk. run_replicate smp sim (base_seed_of smp sim g0) (int k)
                  = Inr (trajectories res ! k, extinction_times res ! k, gk)"
proof -
  define g1 where "g1 = (case seed sim of Some s \<Rightarrow> g0 | None \<Rightarrow> snd (np_randint smp 0 (2 ^ 32 - 1) g0))"
  have b: "(case seed sim of Some s \<Rightarrow> (s, g0) | None \<Rightarrow> np_randint smp 0 (2 ^ 32 - 1) g0)
            = (base_seed_of smp sim g0, g1)"
    by (simp add: base_seed_of_def g1_def split: option.splits)
  from assms obtain T E where
    l: "for_each (py_range 0 (n_replicates sim)) (replicate_body smp sim (base_seed_of smp sim g0))
          (([], []), g1) = Inr ((T, E), g')"
    and res: "res = \<lparr>trajectories = T, extinction_times = E, result_q_threshold = q_threshold sim\<rparr>"
    unfolding run_def b by (auto simp: bindE_Inr_iff)
  from replicate_loop_Inr [OF l] have
    len: "length T = length (py_range 0 (n_replicates sim))" "length E = length (py_range 0 (n_replicates sim))"
    and each: "\<forall>k<length (py_range 0 (n_replicates sim)).
        \<exists>gk. run_replicate smp sim (base_seed_of smp sim g0) (py_range 0 (n_replicates sim) ! k)
               = Inr (T ! k, E ! k, gk)"
    by auto
  have rl: "length (py_range 0 (n_replicates sim)) = nat (n_replicates sim)"
    by (simp add: py_range_def)
  show "length (trajectories res) = nat (n_replicates sim)"
    and "length (extinction_times res) = nat (n_replicates sim)"
    using len rl by (simp_all add: res)
  show "\<exists>gk. run_replicate smp sim (base_seed_of smp sim g0) (int k)
                  = Inr (trajectories res ! k, extinction_times res ! k, gk)"
    if "k < nat (n_replicates sim)" for k
  proof -
    have "py_range 0 (n_replicates sim) ! k = int k" using that by (simp add: py_range_def)
    then show ?thesis using each that rl by (simp add: res) metis
  qed
qed

lemma in_set_nth: "x \<in> set xs \<Longrightarrow> \<exists>k<length xs. xs ! k = x"
  by (simp add: in_set_conv_nth)

text \<open>
  Claim C5, as amended. For a horizon \<open>n_generations \<ge> 0\<close>, every trajectory of a run that
  returns has exactly \<open>n_generations + 1\<close> rows, whether or not the replicate went
  quasi-extinct early; and once the total of a recorded generation \<open>k \<ge> 1\<close> is at or below
  the threshold, every later row, up to the horizon, carries its generation index and zero
  females, males and total.
\<close>

theorem trajectory_rows:
  assumes run: "run smp sim g0 = Inr (res, g')" and n0: "0 \<le> n_generations sim"
  shows "\<forall>traj\<in>set (trajectories res).
           length traj = nat (n_generations sim) + 1 \<and>
           (\<forall>k j. 1 \<le> k \<and> k < j \<and> j < length traj \<and> total (traj ! k) \<le> q_threshold sim \<longrightarrow>
                  generation (traj ! j) = int j \<and> females (traj ! j) = 0 \<and>
                  males (traj ! j) = 0 \<and> total (traj ! j) = 0)"
proof
  fix traj assume "traj \<in> set (trajectories res)"
  then obtain r where r: "r < length (trajectories res)" "trajectories res ! r = traj"
    using in_set_nth by metis
  then have "r < nat (n_replicates sim)" using run_Inr(1) [OF run] by simp
  from run_Inr(3) [OF run this] r(2) obtain gk where
    rr: "run_replicate smp sim (base_seed_of smp sim g0) (int r)
           = Inr (traj, extinction_times res ! r, gk)"
    by auto
  have z: "traj ! j = zero_row (int j)"
    if "1 \<le> k \<and> k < j \<and> j < length traj \<and> total (traj ! k) \<le> q_threshold sim" for k j
    using run_replicate_shape(3) [OF rr n0, of k j] that by simp
  have "generation (traj ! j) = int j \<and> females (traj ! j) = 0 \<and>
                  males (traj ! j) = 0 \<and> total (traj ! j) = 0"
    if "1 \<le> k \<and> k < j \<and> j < length traj \<and> total (traj ! k) \<le> q_threshold sim" for k j
    using z [OF that] by (simp add: zero_row_def)
  then show "length traj = nat (n_generations sim) + 1 \<and>
           (\<forall>k j. 1 \<le> k \<and> k < j \<and> j < length traj \<and> total (traj ! k) \<le> q_threshold sim \<longrightarrow>
                  generation (traj ! j) = int j \<and> females (traj ! j) = 0 \<and>
                  males (traj ! j) = 0 \<and> total (traj ! j) = 0)"
    using run_replicate_shape(1) [OF rr n0] by blast
qed

lemma ageing_run_result:
  "run (tape_sampler blank_seed) ageing_run [] = Inr (ageing_result, [])"
  by code_simp

theorem trajectory_rows_witness:
  "run (tape_sampler blank_seed) ageing_run [] = Inr (ageing_result, [])
   \<and> length (trajectories ageing_result ! 0) = 4
   \<and> total (trajectories ageing_result ! 0 ! 1) \<le> q_threshold ageing_run
   \<and> total (trajectories ageing_result ! 0 ! 2) = 0
   \<and> total (trajectories ageing_result ! 0 ! 3) = 0"
proof -
  have n0: "0 \<le> n_generations ageing_run" by (simp add: ageing_run_def)
  have "trajectories ageing_result ! 0 \<in> set (trajectories ageing_result)"
    by (simp add: ageing_result_def)
  with trajectory_rows [OF ageing_run_result n0]
  have "length (trajectories ageing_result ! 0) = nat (n_generations ageing_run) + 1"
    by blast
  then have "length (trajectories ageing_result ! 0) = 4" by (simp add: ageing_run_def)
  then show ?thesis
    using ageing_run_result by (simp add: ageing_result_def ageing_run_def)
qed

text \<open>
  Claim C5 as stated fails at generation 0: the threshold is tested only after a
  transition. A replicate that starts with 20 individuals under a threshold of 50 records
  20 individuals at generation 1 as well, not zero.
\<close>

theorem quasi_extinct_start_not_zeroed:
  "run (tape_sampler blank_seed) ageing_run [] = Inr (ageing_result, [])
   \<and> total (trajectories ageing_result ! 0 ! 0) \<le> q_threshold ageing_run
   \<and> total (trajectories ageing_result ! 0 ! 1) = 20"
  using ageing_run_result by (simp add: ageing_result_def ageing_run_def)



section \<open>Seeding\<close>

lemma replicate_body_ignores_state:
  "replicate_body smp sim b r (a, g) = replicate_body smp sim b r (a, h)"
  by (cases a) (simp add: replicate_body_def)

lemma replicate_loop_outcome:
  "outcome (for_each rs (replicate_body smp sim b) (a, g))
   = outcome (for_each rs (replicate_body smp sim b) (a, h))"
proof (cases rs)
  case Nil
  then show ?thesis by (simp add: outcome_def)
next
  case (Cons r rest)
  then show ?thesis
    using replicate_body_ignores_state [of smp sim b r a g h] by simp
qed

lemma outcome_bindE:
  assumes "outcome m = outcome m'" and "\<And>a g h. outcome (f (a, g)) = outcome (f (a, h))"
  shows "outcome (bindE m f) = outcome (bindE m' f)"
proof (cases m)
  case (Inl e)
  then have "m' = Inl e" using assms(1) by (auto simp: outcome_def split: sum.splits)
  then show ?thesis using Inl by simp
next
  case (Inr x)
  obtain a g where x: "x = (a, g)" by (cases x)
  from assms(1) Inr x obtain h where "m' = Inr (a, h)"
    by (auto simp: outcome_def split: sum.splits)
  then show ?thesis using Inr x assms(2) by simp
qed

text \<open>
  Claim C6. With an explicit seed, what a run returns (its trajectories and extinction
  times, or its error) does not depend on the state of the random source at entry: two
  executions with the same parameters return the same result.
\<close>

theorem seeded_runs_identical:
  assumes "seed sim = Some s"
  shows "outcome (run smp sim g0) = outcome (run smp sim g0')"
proof -
  have "outcome (bindE (for_each (py_range 0 (n_replicates sim)) (replicate_body smp sim s)
                          (([], []), g0))
           (\<lambda>((trajs, times), g).
              Inr (\<lparr>trajectories = trajs, extinction_times = times,
                    result_q_threshold = q_threshold sim\<rparr>, g)))
      = outcome (bindE (for_each (py_range 0 (n_replicates sim)) (replicate_body smp sim s)
                          (([], []), g0'))
           (\<lambda>((trajs, times), g).
              Inr (\<lparr>trajectories = trajs, extinction_times = times,
                    result_q_threshold = q_threshold sim\<rparr>, g)))"
    by (rule outcome_bindE [OF replicate_loop_outcome]) (simp add: outcome_def split_beta)
  then show ?thesis using assms by (simp add: run_def)
qed

lemma noisy_run_result:
  "run (tape_sampler counting_seed) noisy_run [] = Inr (noisy_result, [])"
  by code_simp

theorem seeded_runs_identical_witness:
  "outcome (run (tape_sampler counting_seed) noisy_run [3, 1 / 2]) = Inr noisy_result"
proof -
  have "seed noisy_run = Some 0" by (simp add: noisy_run_def)
  from seeded_runs_identical [OF this, of "tape_sampler counting_seed" "[3, 1 / 2]" "[]"]
  show ?thesis by (simp add: noisy_run_result outcome_def)
qed

lemma generation_loop_seed_update:
  "generation_loop smp (sim\<lparr>seed := x\<rparr>) gens pop records g
   = generation_loop smp sim gens pop records g"
  by (induction gens arbitrary: pop records g) (auto split: sum.splits)

lemma run_replicate_seed_update:
  "run_replicate smp (sim\<lparr>seed := x\<rparr>) b r = run_replicate smp sim b r"
  by (simp add: run_replicate_def generation_loop_seed_update initial_population_def)

lemma run_replicate_congruent:
  "replicate_seed b1 r1 = replicate_seed b2 r2
   \<Longrightarrow> run_replicate smp sim b1 r1 = run_replicate smp sim b2 r2"
  by (simp add: run_replicate_def)

text \<open>
  Claim C10. The seed of replicate \<open>r\<close> is \<open>(base_seed + r) mod (2^32 - 1)\<close>. Two
  replicates, of one run or of two runs that differ in the seed only, whose sums
  \<open>base_seed + r\<close> are congruent modulo \<open>2^32 - 1\<close> record the same trajectory and the same
  extinction time; and replicates \<open>r\<close> and \<open>r + (2^32 - 1)\<close> of a run always share their
  seed, so the streams of a run are not pairwise distinct in general.
\<close>

theorem congruent_seeds_same_stream:
  "(run smp sim g1 = Inr (res1, h1) \<and> run smp (sim\<lparr>seed := Some s2\<rparr>) g2 = Inr (res2, h2) \<and>
    seed sim = Some s1 \<and> k1 < nat (n_replicates sim) \<and> k2 < nat (n_replicates sim) \<and>
    (s1 + int k1) mod (2 ^ 32 - 1) = (s2 + int k2) mod (2 ^ 32 - 1)
    \<longrightarrow> trajectories res1 ! k1 = trajectories res2 ! k2 \<and>
        extinction_times res1 ! k1 = extinction_times res2 ! k2)
   \<and> replicate_seed b r = (b + r) mod 4294967295
   \<and> replicate_seed b (r + 4294967295) = replicate_seed b r
   \<and> (replicate_seed b1 r1 = replicate_seed b2 r2
      \<longrightarrow> run_replicate smp sim b1 r1 = run_replicate smp sim b2 r2)"
proof (intro conjI impI)
  assume a: "run smp sim g1 = Inr (res1, h1) \<and> run smp (sim\<lparr>seed := Some s2\<rparr>) g2 = Inr (res2, h2) \<and>
    seed sim = Some s1 \<and> k1 < nat (n_replicates sim) \<and> k2 < nat (n_replicates sim) \<and>
    (s1 + int k1) mod (2 ^ 32 - 1) = (s2 + int k2) mod (2 ^ 32 - 1)"
  then have r1: "run smp sim g1 = Inr (res1, h1)"
    and r2: "run smp (sim\<lparr>seed := Some s2\<rparr>) g2 = Inr (res2, h2)"
    and s1: "seed sim = Some s1"
    and k1: "k1 < nat (n_replicates sim)"
    and k2: "k2 < nat (n_replicates (sim\<lparr>seed := Some s2\<rparr>))"
    and cong: "replicate_seed s1 (int k1) = replicate_seed s2 (int k2)"
    by (simp_all add: replicate_seed_def)
  from run_Inr(3) [OF r1 k1] obtain ga where
    a1: "run_replicate smp sim s1 (int k1)
          = Inr (trajectories res1 ! k1, extinction_times res1 ! k1, ga)"
    by (auto simp: base_seed_of_def s1)
  from run_Inr(3) [OF r2 k2] obtain gb where
    a2: "run_replicate smp sim s2 (int k2)
          = Inr (trajectories res2 ! k2, extinction_times res2 ! k2, gb)"
    by (auto simp: base_seed_of_def run_replicate_seed_update)
  from a1 a2 run_replicate_congruent [OF cong, of smp sim]
  show "trajectories res1 ! k1 = trajectories res2 ! k2"
    and "extinction_times res1 ! k1 = extinction_times res2 ! k2"
    by simp_all
next
  show "replicate_seed b r = (b + r) mod 4294967295"
    by (simp add: replicate_seed_def)
  show "replicate_seed b (r + 4294967295) = replicate_seed b r"
    by (simp add: replicate_seed_def add.assoc [symmetric])
next
  assume "replicate_seed b1 r1 = replicate_seed b2 r2"
  then show "run_replicate smp sim b1 r1 = run_replicate smp sim b2 r2"
    by (rule run_replicate_congruent)
qed

lemma wrapped_run_result:
  "run (tape_sampler counting_seed) (noisy_run\<lparr>seed := Some 4294967295\<rparr>) [1, 2]
   = Inr (noisy_result, [])"
  by code_simp

theorem congruent_seeds_same_stream_witness:
  "run (tape_sampler counting_seed) noisy_run [] = Inr (noisy_result, [])
   \<and> run (tape_sampler counting_seed) (noisy_run\<lparr>seed := Some 4294967295\<rparr>) [1, 2]
       = Inr (noisy_result, [])
   \<and> seed noisy_run = Some 0
   \<and> (0 + int 1) mod (2 ^ 32 - 1) = (4294967295 + int 1) mod (2 ^ 32 - 1)
   \<and> trajectories noisy_result ! 1 = trajectories noisy_result ! 1"
  using congruent_seeds_same_stream [of "tape_sampler counting_seed" noisy_run "[]"
      noisy_result "[]" 4294967295 "[1, 2]" noisy_result "[]" 0 1 1]
    noisy_run_result wrapped_run_result
  by (simp add: noisy_run_def)

section \<open>The transition in closed form\<close>

lemma for_each_append:
  "for_each (xs @ ys) body s = bindE (for_each xs body s) (for_each ys body)"
  by (induction xs arbitrary: s) (simp_all split: sum.splits)

lemma getitem_nat: "k < length xs \<Longrightarrow> getitem xs (int k) = Inr (xs ! k)"
  by (simp add: getitem_def norm_index_def)

lemma getitem_last: "xs \<noteq> [] \<Longrightarrow> getitem xs (- 1) = Inr (xs ! (length xs - 1))"
  by (cases xs) (simp_all add: getitem_def norm_index_def nat_add_distrib)

lemma setitem_nat: "k < length xs \<Longrightarrow> setitem xs (int k) v = Inr (xs[k := v])"
  by (simp add: setitem_def norm_index_def)

lemma additem_nat: "k < length xs \<Longrightarrow> additem xs (int k) v = Inr (xs[k := xs ! k + v])"
  by (simp add: additem_def getitem_nat setitem_nat)

lemma additem_last:
  "xs \<noteq> [] \<Longrightarrow> additem xs (- 1) v = Inr (xs[length xs - 1 := xs ! (length xs - 1) + v])"
  by (cases xs) (simp_all add: additem_def getitem_def setitem_def norm_index_def nat_add_distrib)

lemma aged_upto_zero: "aged_upto 0 counts rates = replicate (length counts) 0"
  by (intro nth_equalityI) (simp_all add: aged_upto_def)

lemma length_aged_upto [simp]: "length (aged_upto k counts rates) = length counts"
  by (simp add: aged_upto_def)

lemma aged_upto_Suc:
  assumes "Suc k < length counts"
  shows "(aged_upto k counts rates)[Suc k := aged_upto k counts rates ! Suc k + survivors counts rates k]
         = aged_upto (Suc k) counts rates"
  using assms by (intro nth_equalityI) (auto simp: aged_upto_def nth_list_update)

lemma aged_upto_last:
  assumes "counts \<noteq> []"
  shows "(aged_upto (length counts - 1) counts rates)
           [length counts - 1 := aged_upto (length counts - 1) counts rates ! (length counts - 1)
                                 + survivors counts rates (length counts - 1)]
         = aged counts rates"
  using assms
  by (intro nth_equalityI) (auto simp: aged_upto_def aged_def nth_list_update)

lemma survival_body_closed:
  assumes "src < length (female pop)" "length (male pop) = length (female pop)"
    "length fs = length (female pop)" "length ms = length (female pop)"
    "dst < length nf" "dst < length nm"
  shows "survival_body smp False pop fs ms (int src) (int dst) ((nf, nm), g)
         = Inr ((nf[dst := nf ! dst + survivors (female pop) fs src],
                 nm[dst := nm ! dst + survivors (male pop) ms src]), g)"
  using assms
  by (simp add: survival_body_def getitem_nat additem_nat thinned_det survivors_def)

lemma survival_body_last_closed:
  assumes ne: "female pop \<noteq> []"
    and len: "length (male pop) = length (female pop)"
      "length fs = length (female pop)" "length ms = length (female pop)"
      "length nf = length (female pop)" "length nm = length (female pop)"
  shows "survival_body smp False pop fs ms (- 1) (- 1) ((nf, nm), g)
         = Inr ((nf[length (female pop) - 1 := nf ! (length (female pop) - 1)
                      + survivors (female pop) fs (length (female pop) - 1)],
                 nm[length (female pop) - 1 := nm ! (length (female pop) - 1)
                      + survivors (male pop) ms (length (female pop) - 1)]), g)"
proof -
  have "male pop \<noteq> []" "fs \<noteq> []" "ms \<noteq> []" "nf \<noteq> []" "nm \<noteq> []"
    using ne len by auto
  then show ?thesis
    using ne len
    by (simp add: survival_body_def getitem_last additem_last thinned_det survivors_def)
qed

lemma survival_loop_closed:
  assumes len: "length (male pop) = length (female pop)"
    "length fs = length (female pop)" "length ms = length (female pop)"
    and k: "Suc k \<le> length (female pop)"
  shows "for_each (py_range 0 (int k)) (\<lambda>i. survival_body smp False pop fs ms i (i + 1))
           ((replicate (length (female pop)) 0, replicate (length (male pop)) 0), g)
         = Inr ((aged_upto k (female pop) fs, aged_upto k (male pop) ms), g)"
  using k
proof (induction k)
  case 0
  then show ?case by (simp add: py_range_def aged_upto_zero)
next
  case (Suc k)
  have r: "py_range 0 (int (Suc k)) = py_range 0 (int k) @ [int k]"
    by (simp add: py_range_def upto_rec2)
  have k1: "int k + 1 = int (Suc k)" by simp
  have b: "survival_body smp False pop fs ms (int k) (int (Suc k))
             ((aged_upto k (female pop) fs, aged_upto k (male pop) ms), g)
           = Inr ((aged_upto (Suc k) (female pop) fs, aged_upto (Suc k) (male pop) ms), g)"
    using Suc.prems len
    by (subst survival_body_closed) (simp_all add: aged_upto_Suc)
  have ih: "for_each (py_range 0 (int k)) (\<lambda>i. survival_body smp False pop fs ms i (i + 1))
           ((replicate (length (female pop)) 0, replicate (length (male pop)) 0), g)
         = Inr ((aged_upto k (female pop) fs, aged_upto k (male pop) ms), g)"
    using Suc.IH Suc.prems by simp
  have "for_each (py_range 0 (int (Suc k))) (\<lambda>i. survival_body smp False pop fs ms i (i + 1))
           ((replicate (length (female pop)) 0, replicate (length (male pop)) 0), g)
        = survival_body smp False pop fs ms (int k) (int k + 1)
             ((aged_upto k (female pop) fs, aged_upto k (male pop) ms), g)"
    unfolding r for_each_append ih by (simp split: sum.splits)
  then show ?case unfolding k1 b .
qed

lemma survival_closed:
  assumes ne: "female pop \<noteq> []"
    and len: "length (male pop) = length (female pop)"
    "length fs = length (female pop)" "length ms = length (female pop)"
  shows "survival smp False pop fs ms g
         = Inr ((aged (female pop) fs, aged (male pop) ms), g)"
proof -
  define A where "A = length (female pop)"
  have A: "0 < A" using ne by (simp add: A_def)
  have l: "for_each (py_range 0 (int (A - 1))) (\<lambda>i. survival_body smp False pop fs ms i (i + 1))
           ((replicate (length (female pop)) 0, replicate (length (male pop)) 0), g)
         = Inr ((aged_upto (A - 1) (female pop) fs, aged_upto (A - 1) (male pop) ms), g)"
    using A by (intro survival_loop_closed [OF len]) (simp add: A_def)
  have i: "int (length (female pop)) - 1 = int (A - 1)"
    using ne unfolding A_def by (cases "female pop") simp_all
  have ne_m: "male pop \<noteq> []" using ne len(1) by auto
  have last: "survival_body smp False pop fs ms (- 1) (- 1)
                ((aged_upto (A - 1) (female pop) fs, aged_upto (A - 1) (male pop) ms), g)
              = Inr ((aged (female pop) fs, aged (male pop) ms), g)"
    using ne ne_m len aged_upto_last [of "female pop" fs] aged_upto_last [of "male pop" ms]
    by (subst survival_body_last_closed) (simp_all add: A_def)
  show ?thesis
    unfolding survival_def i l bindE_Inr by (rule last)
qed

lemma py_range_nat: "py_range (int a) (int b) = map int [a..<b]"
proof (induction b)
  case 0
  then show ?case by (simp add: py_range_def)
next
  case (Suc b)
  show ?case
  proof (cases "a \<le> b")
    case True
    then have "[int a..int b] = [int a..int b - 1] @ [int b]" by (simp add: upto_rec2)
    then show ?thesis using Suc True by (simp add: py_range_def)
  next
    case False
    then show ?thesis by (simp add: py_range_def)
  qed
qed

lemma births_loop_closed:
  assumes "\<forall>i\<in>set xs. i < length new_f \<and> i < length ff"
  shows "for_each (map int xs) (births_body smp False new_f ff) (acc, g)
         = Inr (acc + (\<Sum>i\<leftarrow>xs. py_round (of_int (new_f ! i) * ff ! i)), g)"
  using assms
proof (induction xs arbitrary: acc)
  case Nil
  then show ?case by simp
next
  case (Cons i rest)
  then have "births_body smp False new_f ff (int i) (acc, g)
             = Inr (acc + py_round (of_int (new_f ! i) * ff ! i), g)"
    by (simp add: births_body_def getitem_nat)
  then show ?case using Cons by (simp add: add.assoc)
qed

lemma reproduction_closed:
  assumes "0 \<le> reproduction_age pop" "length new_f = length (female pop)"
    "length ff = length (female pop)"
  shows "reproduction smp False pop ff new_f g
         = Inr (births_from new_f ff (nat (reproduction_age pop)), g)"
proof -
  have "py_range (reproduction_age pop) (int (length (female pop)))
        = map int [nat (reproduction_age pop)..<length (female pop)]"
    using py_range_nat [of "nat (reproduction_age pop)" "length (female pop)"] assms(1) by simp
  then show ?thesis
    using assms(2,3) births_loop_closed [of "[nat (reproduction_age pop)..<length (female pop)]" new_f ff smp 0 g]
    by (simp add: reproduction_def births_from_def)
qed

lemma length_aged [simp]: "length (aged counts rates) = length counts"
  by (simp add: aged_def)




lemma advance_generation_closed:
  assumes ne: "female pop \<noteq> []"
    and len: "length (male pop) = length (female pop)"
      "length (female_survival vr) = length (female pop)"
      "length (male_survival vr) = length (female pop)"
      "length (female_fertility vr) = length (female pop)"
    and r: "0 \<le> reproduction_age pop"
    and cap: "carrying_capacity pop = None"
  shows "advance_generation smp vr None False False pop g
         = Inr (pop\<lparr>female := (aged (female pop) (female_survival vr))
                                   [0 := det_female_births vr pop],
                    male := (aged (male pop) (male_survival vr))
                                   [0 := det_male_births vr pop]\<rparr>, g)"
proof -
  have s: "survival smp False pop (female_survival vr) (male_survival vr) g
         = Inr ((aged (female pop) (female_survival vr), aged (male pop) (male_survival vr)), g)"
    by (rule survival_closed [OF ne len(1,2,3)])
  have b: "reproduction smp False pop (female_fertility vr) (aged (female pop) (female_survival vr)) g
         = Inr (det_births vr pop, g)"
    unfolding det_births_def by (rule reproduction_closed [OF r _ len(4)]) simp
  have a: "assign_sexes smp False pop (det_births vr pop) g
         = Inr ((det_female_births vr pop, det_male_births vr pop), g)"
    by (simp add: assign_sexes_def thinned_det det_female_births_def det_male_births_def)
  have z: "setitem (aged (female pop) (female_survival vr)) 0 v
           = Inr ((aged (female pop) (female_survival vr))[0 := v])"
       "setitem (aged (male pop) (male_survival vr)) 0 v
           = Inr ((aged (male pop) (male_survival vr))[0 := v])" for v
    using ne len(1) setitem_nat [of 0 "aged (female pop) (female_survival vr)" v]
      setitem_nat [of 0 "aged (male pop) (male_survival vr)" v] by simp_all
  show ?thesis
    by (simp add: advance_generation_def effective_rates_def s b a z enforce_capacity_def cap)
qed





text \<open>
  With two or more age classes the last class is a plus-group (the part of claim C2 that
  the code meets): without noise, catastrophe or capacity it holds its own survivors
  together with those of the class below.
\<close>

lemma plus_group_with_two_or_more_classes:
  assumes two: "2 \<le> length (female pop)"
    and len: "length (male pop) = length (female pop)"
      "length (female_survival vr) = length (female pop)"
      "length (male_survival vr) = length (female pop)"
      "length (female_fertility vr) = length (female pop)"
    and r: "0 \<le> reproduction_age pop"
    and cap: "carrying_capacity pop = None"
  shows "\<exists>pop'. advance_generation smp vr None False False pop g = Inr (pop', g)
           \<and> female pop' ! (length (female pop) - 1)
               = survivors (female pop) (female_survival vr) (length (female pop) - 1)
                 + survivors (female pop) (female_survival vr) (length (female pop) - 2)
           \<and> male pop' ! (length (female pop) - 1)
               = survivors (male pop) (male_survival vr) (length (female pop) - 1)
                 + survivors (male pop) (male_survival vr) (length (female pop) - 2)"
proof -
  have ne: "female pop \<noteq> []" using two by auto
  have a: "aged xs rs ! (length xs - 1)
           = survivors xs rs (length xs - 1) + survivors xs rs (length xs - 2)"
    if "2 \<le> length xs" for xs rs
  proof -
    have "length xs - 1 - 1 = length xs - 2" by simp
    moreover have "Suc (length xs - 1) = length xs" using that by simp
    ultimately show ?thesis using that by (simp add: aged_def)
  qed
  show ?thesis
    unfolding advance_generation_closed [OF ne len r cap]
    using two len(1) a [of "female pop" "female_survival vr"] a [of "male pop" "male_survival vr"]
    by simp
qed

section \<open>Runs without noise return\<close>

text \<open>
  On well-formed input, with both noise flags off, no subscript is out of range and no
  sampler that may raise is called: the transition, each replicate and the whole run
  return a result, with or without a catastrophe and a capacity.
\<close>

lemma for_each_total:
  assumes "I s"
    and "\<And>i t. i \<in> set xs \<Longrightarrow> I t \<Longrightarrow> \<exists>t'. body i t = Inr t' \<and> I t'"
  shows "\<exists>s'. for_each xs body s = Inr s' \<and> I s'"
  using assms
proof (induction xs arbitrary: s)
  case Nil
  then show ?case by simp
next
  case (Cons i rest)
  from Cons.prems(2) [of i s] Cons.prems(1) obtain t where t: "body i s = Inr t" "I t" by auto
  have "\<exists>s'. for_each rest body t = Inr s' \<and> I s'"
    by (rule Cons.IH [OF t(2)]) (use Cons.prems(2) in auto)
  then show ?case using t(1) by simp
qed

lemma catastrophe_body_closed:
  assumes "k < length nf" "length nm = length nf"
  shows "catastrophe_body smp False c (int k) ((nf, nm), g)
         = Inr ((nf[k := py_round (of_int (nf ! k) * (1 - mortality_rate c))],
                 nm[k := py_round (of_int (nm ! k) * (1 - mortality_rate c))]), g)"
  using assms by (simp add: catastrophe_body_def getitem_nat setitem_nat thinned_det)

lemma apply_catastrophe_total:
  assumes "length nm = length nf"
  shows "\<exists>nf' nm' g'. apply_catastrophe smp False c ((nf, nm), g) = Inr ((nf', nm'), g')
           \<and> length nf' = length nf \<and> length nm' = length nf"
proof (cases "fst (occurs smp c g)")
  case True
  define I :: "(int list \<times> int list) \<times> 'a \<Rightarrow> bool"
    where "I = (\<lambda>((a, b), h). length a = length nf \<and> length b = length nf)"
  have step: "\<exists>t'. catastrophe_body smp False c i t = Inr t' \<and> I t'"
    if mem: "i \<in> set (py_range 0 (int (length nf)))" and inv: "I t" for i t
  proof -
    obtain a b h where t: "t = ((a, b), h)" by (metis surj_pair)
    have ab: "length a = length nf" "length b = length a" using inv by (simp_all add: t I_def)
    have "0 \<le> i" "i < int (length a)" using mem ab(1) by (simp_all add: py_range_def)
    then have "i = int (nat i)" "nat i < length a" by simp_all
    then obtain k where k: "i = int k" "k < length a" by blast
    show ?thesis
      unfolding t k(1) catastrophe_body_closed [OF k(2) ab(2)]
      using ab by (simp add: I_def)
  qed
  have I0: "I ((nf, nm), snd (occurs smp c g))" using assms by (simp add: I_def)
  from for_each_total [where I = I and body = "catastrophe_body smp False c"
      and xs = "py_range 0 (int (length nf))", OF I0 step]
  obtain s' where "for_each (py_range 0 (int (length nf))) (catastrophe_body smp False c)
        ((nf, nm), snd (occurs smp c g)) = Inr s'" "I s'"
    by blast
  then show ?thesis
    using True by (cases s') (auto simp: apply_catastrophe_def I_def split_beta)
next
  case False
  then show ?thesis using assms by (simp add: apply_catastrophe_def split_beta)
qed

lemma enforce_capacity_total:
  "\<exists>nf' nm'. enforce_capacity smp False pop ((nf, nm), g) = Inr ((nf', nm'), g)
           \<and> length nf' = length nf \<and> length nm' = length nm"
  by (simp add: enforce_capacity_def Let_def split: option.splits)

lemma advance_generation_returns:
  assumes wf: "well_formed vr pop"
  shows "\<exists>nf nm g'. advance_generation smp vr cat False False pop g
                      = Inr (pop\<lparr>female := nf, male := nm\<rparr>, g')
                  \<and> length nf = length (female pop) \<and> length nm = length (female pop)"
proof -
  from wf have ne: "female pop \<noteq> []"
    and len: "length (male pop) = length (female pop)"
      "length (female_survival vr) = length (female pop)"
      "length (male_survival vr) = length (female pop)"
      "length (female_fertility vr) = length (female pop)"
    and r: "0 \<le> reproduction_age pop"
    by (simp_all add: well_formed_def)
  define af where "af = aged (female pop) (female_survival vr)"
  define am where "am = aged (male pop) (male_survival vr)"
  have s: "survival smp False pop (female_survival vr) (male_survival vr) g = Inr ((af, am), g)"
    unfolding af_def am_def by (rule survival_closed [OF ne len(1,2,3)])
  have laf: "length af = length (female pop)" and lam: "length am = length (female pop)"
    using len(1) by (simp_all add: af_def am_def)
  have b: "reproduction smp False pop (female_fertility vr) af g = Inr (det_births vr pop, g)"
    unfolding det_births_def af_def by (rule reproduction_closed [OF r _ len(4)]) simp
  have a: "assign_sexes smp False pop (det_births vr pop) g
         = Inr ((det_female_births vr pop, det_male_births vr pop), g)"
    by (simp add: assign_sexes_def thinned_det det_female_births_def det_male_births_def)
  define nf2 where "nf2 = af[0 := det_female_births vr pop]"
  define nm2 where "nm2 = am[0 := det_male_births vr pop]"
  have z: "setitem af 0 (det_female_births vr pop) = Inr nf2"
       "setitem am 0 (det_male_births vr pop) = Inr nm2"
    using ne laf lam setitem_nat [of 0 af] setitem_nat [of 0 am] by (simp_all add: nf2_def nm2_def)
  have l2: "length nm2 = length nf2" "length nf2 = length (female pop)"
    using laf lam by (simp_all add: nf2_def nm2_def)
  have "\<exists>nf4 nm4 g4. (case cat of None \<Rightarrow> Inr ((nf2, nm2), g)
                | Some c \<Rightarrow> apply_catastrophe smp False c ((nf2, nm2), g)) = Inr ((nf4, nm4), g4)
            \<and> length nf4 = length nf2 \<and> length nm4 = length nf2"
  proof (cases cat)
    case None
    then show ?thesis using l2 by simp
  next
    case (Some c)
    then show ?thesis using apply_catastrophe_total [OF l2(1), of smp c g] by simp
  qed
  then obtain nf4 nm4 g4 where
    c: "(case cat of None \<Rightarrow> Inr ((nf2, nm2), g)
                | Some c \<Rightarrow> apply_catastrophe smp False c ((nf2, nm2), g)) = Inr ((nf4, nm4), g4)"
    and l4: "length nf4 = length nf2" "length nm4 = length nf2"
    by blast
  from enforce_capacity_total [of smp pop nf4 nm4 g4] obtain nf5 nm5 where
    e: "enforce_capacity smp False pop ((nf4, nm4), g4) = Inr ((nf5, nm5), g4)"
    and l5: "length nf5 = length nf4" "length nm5 = length nm4"
    by blast
  have "advance_generation smp vr cat False False pop g
        = Inr (pop\<lparr>female := nf5, male := nm5\<rparr>, g4)"
    by (simp add: advance_generation_def effective_rates_def s b a z c e)
  then show ?thesis using l5 l4 l2 by auto
qed

lemma well_formed_update:
  assumes "well_formed vr pop" "length nf = length (female pop)" "length nm = length (female pop)"
  shows "well_formed vr (pop\<lparr>female := nf, male := nm\<rparr>)"
  using assms by (auto simp: well_formed_def)

lemma generation_loop_returns:
  assumes "well_formed (sim_vital_rates sim) pop" "demo_noise sim = False" "env_noise sim = False"
  shows "\<exists>r. generation_loop smp sim gens pop records g = Inr r"
  using assms(1)
proof (induction gens arbitrary: pop records g)
  case Nil
  then show ?case by simp
next
  case (Cons gen rest)
  from advance_generation_returns [OF Cons.prems, of smp "sim_catastrophe sim" g]
  obtain nf nm g' where
    adv: "advance_generation smp (sim_vital_rates sim) (sim_catastrophe sim) False False pop g
          = Inr (pop\<lparr>female := nf, male := nm\<rparr>, g')"
    and l: "length nf = length (female pop)" "length nm = length (female pop)"
    by blast
  have "well_formed (sim_vital_rates sim) (pop\<lparr>female := nf, male := nm\<rparr>)"
    by (rule well_formed_update [OF Cons.prems l])
  from Cons.IH [OF this] show ?case
    using adv assms(2,3) by simp
qed

lemma run_replicate_returns:
  assumes "well_formed (sim_vital_rates sim) (initial_population sim)"
    "demo_noise sim = False" "env_noise sim = False"
  shows "\<exists>r. run_replicate smp sim b rep = Inr r"
proof -
  from generation_loop_returns [OF assms, of smp "py_range 1 (n_generations sim + 1)"
      "[record_row 0 (initial_population sim)]" "np_seed smp (replicate_seed b rep)"]
  obtain r where
    "generation_loop smp sim (py_range 1 (n_generations sim + 1)) (initial_population sim)
       [record_row 0 (initial_population sim)] (np_seed smp (replicate_seed b rep)) = Inr r"
    by blast
  then show ?thesis by (simp add: run_replicate_def split_beta)
qed

lemma run_returns:
  assumes "well_formed (sim_vital_rates sim) (initial_population sim)"
    "demo_noise sim = False" "env_noise sim = False"
  shows "\<exists>res g'. run smp sim g0 = Inr (res, g')"
proof -
  have "\<exists>s'. for_each xs (replicate_body smp sim b) s = Inr s' \<and> True" for xs b s
  proof (rule for_each_total [where I = "\<lambda>_. True"])
    show True ..
    show "\<exists>t'. replicate_body smp sim b i t = Inr t' \<and> True" for i t
      using run_replicate_returns [OF assms, of smp b i]
      by (cases t) (auto simp: replicate_body_def split_beta)
  qed
  then obtain s' where "for_each (py_range 0 (n_replicates sim))
      (replicate_body smp sim (base_seed_of smp sim g0))
      (([], []), case seed sim of Some s \<Rightarrow> g0 | None \<Rightarrow> snd (np_randint smp 0 (2 ^ 32 - 1) g0))
     = Inr s'"
    by blast
  then show ?thesis
    by (cases "seed sim") (auto simp: run_def base_seed_of_def split_beta)
qed

end
